theory Spec2Isabelle
  imports Main
begin

section \<open>JavaScript values\<close>

text \<open>
  The program is the chess prototype of \<^verbatim>\<open>Board.js\<close>, \<^verbatim>\<open>Point.js\<close> and \<^verbatim>\<open>Pieces.js\<close>.
  Numbers that the code computes on are integers and are modelled by \<^typ>\<open>int\<close>; a string
  is a list of code units below 256. An exception is a value of type \<open>error\<close>: the
  \<^verbatim>\<open>TypeError\<close> that JavaScript raises on a property access on \<^verbatim>\<open>null\<close> or
  \<^verbatim>\<open>undefined\<close>, or an \<^verbatim>\<open>Error\<close> thrown by the code with its message.
\<close>

datatype error = TypeError | Error string

text \<open>
  What \<^verbatim>\<open>Point.toAlgebraic\<close> can return and what the square parameters of \<^verbatim>\<open>Board\<close>
  receive from it: a string, or the number \<^verbatim>\<open>NaN\<close> (\<^verbatim>\<open>undefined + number\<close>).
\<close>

datatype sqval = Str string | NaN

text \<open>Decimal digits of a number, as \<^verbatim>\<open>letter + number\<close> appends them to a string.\<close>

fun showNat :: "nat \<Rightarrow> string" where
  "showNat n =
     (if n < 10 then [''0123456789'' ! n]
      else showNat (n div 10) @ [''0123456789'' ! (n mod 10)])"

declare showNat.simps [simp del]

definition numberToString :: "int \<Rightarrow> string" where
  "numberToString i = (if i < 0 then CHR ''-'' # showNat (nat (- i)) else showNat (nat i))"

text \<open>\<^verbatim>\<open>char.match(/\d/)\<close>: one of the ten ASCII digits; \<^verbatim>\<open>parseInt(char)\<close> on such a char.\<close>

definition isDigit :: "char \<Rightarrow> bool" where
  "isDigit c = (c \<in> set ''0123456789'')"

definition parseInt :: "char \<Rightarrow> int" where
  "parseInt c = int (of_char c) - 48"

text \<open>
  \<^verbatim>\<open>8 - number\<close> converts \<^verbatim>\<open>number\<close> (a string of one char, or \<^verbatim>\<open>undefined\<close>) to a
  number: a digit to its value, a white-space char to 0 (the string is empty once
  trimmed), anything else and \<^verbatim>\<open>undefined\<close> to \<^verbatim>\<open>NaN\<close>, here \<open>None\<close>.
\<close>

definition isStrWhiteSpace :: "char \<Rightarrow> bool" where
  "isStrWhiteSpace c = (of_char c \<in> {9, 10, 11, 12, 13, 32, 160 :: nat})"

definition toNumber :: "char option \<Rightarrow> int option" where
  "toNumber x =
     (case x of
        None \<Rightarrow> None
      | Some c \<Rightarrow>
          if isDigit c then Some (parseInt c)
          else if isStrWhiteSpace c then Some 0
          else None)"

text \<open>\<^verbatim>\<open>square[i]\<close>: the i-th char, \<^verbatim>\<open>undefined\<close> past the end and on a number.\<close>

definition charAt :: "sqval \<Rightarrow> nat \<Rightarrow> char option" where
  "charAt square i =
     (case square of
        Str s \<Rightarrow> if i < length s then Some (s ! i) else None
      | NaN \<Rightarrow> None)"

text \<open>
  \<^verbatim>\<open>"abcdefgh".indexOf(letter)\<close> for a one-char string; \<^verbatim>\<open>undefined\<close> is searched
  as the text "undefined", which does not occur.
\<close>

fun indexOf :: "string \<Rightarrow> char \<Rightarrow> int" where
  "indexOf [] c = - 1"
| "indexOf (x # xs) c =
     (if x = c then 0 else (let i = indexOf xs c in if i < 0 then - 1 else i + 1))"

definition indexOfLetter :: "char option \<Rightarrow> int" where
  "indexOfLetter letter = (case letter of None \<Rightarrow> - 1 | Some c \<Rightarrow> indexOf ''abcdefgh'' c)"

text \<open>\<^verbatim>\<open>str.split(sep)\<close> with a separator of one char: never an empty array.\<close>

fun splitOn :: "char \<Rightarrow> string \<Rightarrow> string list" where
  "splitOn sep [] = [[]]"
| "splitOn sep (x # xs) =
     (if x = sep then [] # splitOn sep xs
      else (case splitOn sep xs of
              [] \<Rightarrow> [[x]]
            | r # rs \<Rightarrow> (x # r) # rs))"

text \<open>
  \<^verbatim>\<open>char.toUpperCase()\<close> on one char. Only its ASCII part is written out: no other
  code unit below 256 has one of the letters P, B, N, R, K, Q as its upper case, and
  the result is only compared with these.
\<close>

definition toUpperCase :: "char \<Rightarrow> char" where
  "toUpperCase c =
     (let i = indexOf ''abcdefghijklmnopqrstuvwxyz'' c
      in if i < 0 then c else ''ABCDEFGHIJKLMNOPQRSTUVWXYZ'' ! nat i)"

section \<open>Point.js\<close>

record Point =
  "file" :: int
  rank :: int

definition mkPoint :: "int \<Rightarrow> int \<Rightarrow> Point" where
  "mkPoint f r = \<lparr>file = f, rank = r\<rparr>"

text \<open>\<^verbatim>\<open>_isInBounds(f, r)\<close> and the getter \<^verbatim>\<open>isValid\<close>.\<close>

definition isInBounds :: "int \<Rightarrow> int \<Rightarrow> bool" where
  "isInBounds f r = (f \<ge> 0 \<and> f \<le> 7 \<and> r \<ge> 0 \<and> r \<le> 7)"

definition isValid :: "Point \<Rightarrow> bool" where
  "isValid this = isInBounds (file this) (rank this)"

text \<open>
  \<^verbatim>\<open>toAlgebraic()\<close>: \<^verbatim>\<open>"abcdefgh"[this.file]\<close> is \<^verbatim>\<open>undefined\<close> outside 0..7, and
  \<^verbatim>\<open>undefined + number\<close> is \<^verbatim>\<open>NaN\<close>.
\<close>

definition toAlgebraic :: "Point \<Rightarrow> sqval" where
  "toAlgebraic this =
     (let number = rank this + 1 in
      if 0 \<le> file this \<and> file this \<le> 7
      then Str ((''abcdefgh'' ! nat (file this)) # numberToString number)
      else NaN)"

text \<open>The test \<^verbatim>\<open>/^[a-h][1-8]$/\<close> of \<^verbatim>\<open>setSquare\<close>.\<close>

definition validSquare :: "string \<Rightarrow> bool" where
  "validSquare s =
     (case s of
        [l, d] \<Rightarrow> l \<in> set ''abcdefgh'' \<and> d \<in> set ''12345678''
      | _ \<Rightarrow> False)"

text \<open>\<^verbatim>\<open>setSquare(square)\<close> on a string; the point is returned updated.\<close>

definition setSquare :: "Point \<Rightarrow> string \<Rightarrow> error + Point" where
  "setSquare this square =
     (if square = [] \<or> \<not> validSquare square then Inl (Error ''Invalid square'')
      else
        (let letter = square ! 0;
             number = square ! 1;
             newFile = indexOf ''abcdefgh'' letter;
             newRank = 8 - parseInt number
         in Inr (this\<lparr>file := newFile, rank := newRank\<rparr>)))"

text \<open>
  The loop of \<^verbatim>\<open>getLine\<close>. \<^verbatim>\<open>getLine\<close> throws before the loop when both deltas are 0,
  so the loop only ever runs with a delta that is not 0; the first test records that.
\<close>

function getLine_loop :: "Point \<Rightarrow> int \<Rightarrow> int \<Rightarrow> int \<Rightarrow> int \<Rightarrow> Point list \<Rightarrow> Point list" where
  "getLine_loop this dx dy r f points =
     (if dx = 0 \<and> dy = 0 then points
      else if r \<ge> 0 \<and> r \<le> 7 \<and> f \<ge> 0 \<and> f \<le> 7 then
        getLine_loop this dx dy (r + dy) (f + dx)
          (if \<not> (r = rank this \<and> f = file this) then points @ [mkPoint f r] else points)
      else points)"
  by pat_completeness auto
termination
  by (relation "measure (\<lambda>(this, dx, dy, r, f, points).
        if dx > 0 then nat (8 - f)
        else if dx < 0 then nat (f + 1)
        else if dy > 0 then nat (8 - r)
        else nat (r + 1))") auto

declare getLine_loop.simps [simp del]

definition getLine :: "Point \<Rightarrow> int \<Rightarrow> int \<Rightarrow> error + Point list" where
  "getLine this dx dy =
     (if dx = 0 \<and> dy = 0 then Inl (Error ''Both deltas can't be zero or unspecified'')
      else Inr (getLine_loop this dx dy (rank this) (file this) []))"

text \<open>Runs a list of calls in order and stops at the first exception.\<close>

fun collect :: "(error + 'a) list \<Rightarrow> error + 'a list" where
  "collect [] = Inr []"
| "collect (x # xs) =
     (case x of
        Inl e \<Rightarrow> Inl e
      | Inr v \<Rightarrow> (case collect xs of Inl e \<Rightarrow> Inl e | Inr vs \<Rightarrow> Inr (v # vs)))"

definition getDiagonals :: "Point \<Rightarrow> error + Point list list" where
  "getDiagonals this =
     collect [getLine this 1 (- 1), getLine this 1 1, getLine this (- 1) (- 1), getLine this (- 1) 1]"

definition getStraightLines :: "Point \<Rightarrow> error + Point list list" where
  "getStraightLines this =
     collect [getLine this (- 1) 0, getLine this 1 0, getLine this 0 (- 1), getLine this 0 1]"

definition getAllLines :: "Point \<Rightarrow> error + Point list list" where
  "getAllLines this =
     (case getStraightLines this of
        Inl e \<Rightarrow> Inl e
      | Inr straight \<Rightarrow>
          (case getDiagonals this of
             Inl e \<Rightarrow> Inl e
           | Inr diag \<Rightarrow> Inr (straight @ diag)))"

definition getSurroundingPoints :: "Point \<Rightarrow> Point list" where
  "getSurroundingPoints this =
     concat (map (\<lambda>dy. concat (map (\<lambda>dx.
        if dx = 0 \<and> dy = 0 then []
        else if isInBounds (file this + dx) (rank this + dy)
        then [mkPoint (file this + dx) (rank this + dy)]
        else []) [- 1, 0, 1])) [- 1, 0, 1])"

definition getKnightPoints :: "Point \<Rightarrow> Point list" where
  "getKnightPoints this =
     (let deltas = [(2, - 1), (2, 1), (- 2, - 1), (- 2, 1), (1, - 2), (1, 2), (- 1, - 2), (- 1, 2)]
      in concat (map (\<lambda>(d0, d1).
           if isInBounds (file this + d0) (rank this + d1)
           then [mkPoint (file this + d0) (rank this + d1)]
           else []) deltas))"

section \<open>Pieces.js\<close>

datatype PieceType = Pawn | Bishop | Knight | Rook | King | Queen

datatype Color = Black | White

text \<open>
  A piece as a board holds it: \<^verbatim>\<open>type\<close>, \<^verbatim>\<open>color\<close> and \<^verbatim>\<open>point\<close>. The constructor leaves
  \<^verbatim>\<open>point\<close> null and \<^verbatim>\<open>Board.setPieceAtSquare\<close>, the only writer of the board, assigns
  it before it stores the piece. The attacker and defender lists and \<^verbatim>\<open>isPinned\<close> are
  never written after the constructor and are left out.
\<close>

record Piece =
  type :: PieceType
  color :: Color
  point :: Point

definition colorName :: "Color \<Rightarrow> string" where
  "colorName c = (case c of Black \<Rightarrow> ''black'' | White \<Rightarrow> ''white'')"

definition isKing :: "Piece \<Rightarrow> bool" where
  "isKing this = (type this = King)"

text \<open>The getter \<^verbatim>\<open>square\<close> of a piece with a point, as a template literal prints it.\<close>

definition sqvalText :: "sqval \<Rightarrow> string" where
  "sqvalText v = (case v of Str s \<Rightarrow> s | NaN \<Rightarrow> ''NaN'')"

definition square :: "Piece \<Rightarrow> sqval" where
  "square this = toAlgebraic (point this)"

definition getPointAhead :: "Piece \<Rightarrow> Point option" where
  "getPointAhead this =
     (let rankAhead = (if color this = Black then rank (point this) + 1 else rank (point this) - 1);
          pointAhead = mkPoint (file (point this)) rankAhead
      in if isValid pointAhead then Some pointAhead else None)"

section \<open>Board.js\<close>

text \<open>
  \<^verbatim>\<open>pieceList\<close> is an array of 8 rows of 8 cells, each null or a piece; no method
  changes a length. A board is the function from row and column to the cell, \<open>None\<close>
  for a cell that holds no piece. Column \<open>- 1\<close> of a row is its property \<^verbatim>\<open>"-1"\<close>, which
  \<^verbatim>\<open>indexOf\<close> addresses for a letter outside a..h: \<^verbatim>\<open>undefined\<close> until a piece is
  stored there.
\<close>

type_synonym Board = "int \<Rightarrow> int \<Rightarrow> Piece option"

definition newBoard :: Board where
  "newBoard = (\<lambda>r f. None)"

text \<open>What reading a cell gives: \<^verbatim>\<open>undefined\<close>, \<^verbatim>\<open>null\<close> or a piece.\<close>

datatype cell = Undefined | Null | Occ Piece

text \<open>The getter \<^verbatim>\<open>pieces\<close>: the pieces of rows 0 to 7, each from column 0 to 7.\<close>

definition pieces :: "Board \<Rightarrow> Piece list" where
  "pieces this = concat (map (\<lambda>r. List.map_filter (\<lambda>f. this r f) [0..7]) [0..7])"

text \<open>
  \<^verbatim>\<open>algebraicToPoint(square)\<close>. The result is \<open>None\<close> when the rank is \<^verbatim>\<open>NaN\<close>: both
  callers index \<^verbatim>\<open>pieceList\<close> by the rank at once, and that raises a TypeError.
\<close>

definition algebraicToPoint :: "sqval \<Rightarrow> Point option" where
  "algebraicToPoint sq =
     (let letter = charAt sq 0;
          number = charAt sq 1;
          f = indexOfLetter letter
      in case toNumber number of
           None \<Rightarrow> None
         | Some n \<Rightarrow> Some (mkPoint f (8 - n)))"

text \<open>\<^verbatim>\<open>getPieceAtSquare(square)\<close> reads \<^verbatim>\<open>pieceList[point.rank][point.file]\<close>.\<close>

definition getPieceAtSquare :: "Board \<Rightarrow> sqval \<Rightarrow> error + cell" where
  "getPieceAtSquare this sq =
     (case algebraicToPoint sq of
        None \<Rightarrow> Inl TypeError
      | Some pt \<Rightarrow>
          if 0 \<le> rank pt \<and> rank pt \<le> 7 then
            Inr (case this (rank pt) (file pt) of
                   Some pc \<Rightarrow> Occ pc
                 | None \<Rightarrow> if 0 \<le> file pt then Null else Undefined)
          else Inl TypeError)"

text \<open>
  \<^verbatim>\<open>setPieceAtSquare(square, piece)\<close>: \<^verbatim>\<open>piece\<close> is null (\<open>None\<close>) or an object, of
  which only type and color are kept, since its point is overwritten. The assignment
  \<^verbatim>\<open>piece.point = point\<close> raises a TypeError on null; the store writes
  \<^verbatim>\<open>pieceList[7 - point.rank][point.file]\<close> and raises one when that row does not exist.
\<close>

definition setPieceAtSquare :: "Board \<Rightarrow> sqval \<Rightarrow> (PieceType \<times> Color) option \<Rightarrow> error + Board" where
  "setPieceAtSquare this sq piece =
     (let pt = algebraicToPoint sq in
      case piece of
        None \<Rightarrow> Inl TypeError
      | Some (t, c) \<Rightarrow>
          (case pt of
             None \<Rightarrow> Inl TypeError
           | Some p \<Rightarrow>
               if 0 \<le> 7 - rank p \<and> 7 - rank p \<le> 7 then
                 Inr (this (7 - rank p := (this (7 - rank p))
                        (file p := Some \<lparr>type = t, color = c, point = p\<rparr>)))
               else Inl TypeError))"

text \<open>
  \<^verbatim>\<open>addPiece(type, color, square)\<close> with one of the six names of \<^verbatim>\<open>Piece.types\<close> and one
  of the two of \<^verbatim>\<open>Piece.colors\<close>: the \<^verbatim>\<open>switch\<close> makes the piece of that class, with a
  null point. \<^verbatim>\<open>clearSquare(square)\<close> passes null for the piece.
\<close>

definition addPiece :: "Board \<Rightarrow> PieceType \<Rightarrow> Color \<Rightarrow> sqval \<Rightarrow> error + Board" where
  "addPiece this t c sq = setPieceAtSquare this sq (Some (t, c))"

definition clearSquare :: "Board \<Rightarrow> sqval \<Rightarrow> error + Board" where
  "clearSquare this sq = setPieceAtSquare this sq None"

text \<open>
  \<^verbatim>\<open>findUnblockedPoints(pointList, color, includeCaptures)\<close>: the loop over the points,
  with \<^verbatim>\<open>validPoints\<close> as accumulator.
\<close>

fun findUnblockedPoints_loop ::
  "Board \<Rightarrow> Point list \<Rightarrow> Color \<Rightarrow> bool \<Rightarrow> Point list \<Rightarrow> error + Point list" where
  "findUnblockedPoints_loop this [] clr includeCaptures validPoints = Inr validPoints"
| "findUnblockedPoints_loop this (p # rest) clr includeCaptures validPoints =
     (case getPieceAtSquare this (toAlgebraic p) of
        Inl e \<Rightarrow> Inl e
      | Inr pieceOnSquare \<Rightarrow>
          (case pieceOnSquare of
             Occ pc \<Rightarrow>
               if includeCaptures \<and> color pc \<noteq> clr \<and> \<not> isKing pc
               then findUnblockedPoints_loop this rest clr includeCaptures (validPoints @ [p])
               else findUnblockedPoints_loop this rest clr includeCaptures validPoints
           | _ \<Rightarrow> findUnblockedPoints_loop this rest clr includeCaptures (validPoints @ [p])))"

definition findUnblockedPoints :: "Board \<Rightarrow> Point list \<Rightarrow> Color \<Rightarrow> bool \<Rightarrow> error + Point list" where
  "findUnblockedPoints this pointList clr includeCaptures =
     findUnblockedPoints_loop this pointList clr includeCaptures []"

text \<open>
  \<^verbatim>\<open>findUnblockedPointsOnLine(lines, color)\<close>. The inner loop walks one line and ends
  when \<^verbatim>\<open>blockedLine\<close> is set; the outer loop takes the lines in order. Both carry
  \<^verbatim>\<open>validPoints\<close>.
\<close>

fun findUnblockedPointsOnLine_inner ::
  "Board \<Rightarrow> Color \<Rightarrow> Point list \<Rightarrow> Point list \<Rightarrow> error + Point list" where
  "findUnblockedPointsOnLine_inner this clr [] validPoints = Inr validPoints"
| "findUnblockedPointsOnLine_inner this clr (p # rest) validPoints =
     (case getPieceAtSquare this (toAlgebraic p) of
        Inl e \<Rightarrow> Inl e
      | Inr pieceOnSquare \<Rightarrow>
          (case pieceOnSquare of
             Occ pc \<Rightarrow>
               if color pc = clr then Inr validPoints
               else if color pc \<noteq> clr \<and> type pc \<noteq> King then Inr (validPoints @ [p])
               else findUnblockedPointsOnLine_inner this clr rest validPoints
           | _ \<Rightarrow> findUnblockedPointsOnLine_inner this clr rest (validPoints @ [p])))"

fun findUnblockedPointsOnLine_outer ::
  "Board \<Rightarrow> Color \<Rightarrow> Point list list \<Rightarrow> Point list \<Rightarrow> error + Point list" where
  "findUnblockedPointsOnLine_outer this clr [] validPoints = Inr validPoints"
| "findUnblockedPointsOnLine_outer this clr (line # rest) validPoints =
     (case findUnblockedPointsOnLine_inner this clr line validPoints of
        Inl e \<Rightarrow> Inl e
      | Inr validPoints' \<Rightarrow> findUnblockedPointsOnLine_outer this clr rest validPoints')"

definition findUnblockedPointsOnLine :: "Board \<Rightarrow> Point list list \<Rightarrow> Color \<Rightarrow> error + Point list" where
  "findUnblockedPointsOnLine this lines clr = findUnblockedPointsOnLine_outer this clr lines []"

text \<open>
  \<^verbatim>\<open>getPawnPseudoMoves(piece)\<close> computes the point ahead, drops the result of
  \<^verbatim>\<open>pointList.concat\<close> and ends without a \<^verbatim>\<open>return\<close>: its value is \<^verbatim>\<open>undefined\<close>,
  here \<open>None\<close>.
\<close>

definition getPawnPseudoMoves :: "Board \<Rightarrow> Piece \<Rightarrow> Point list option" where
  "getPawnPseudoMoves this piece = (let pointAhead = getPointAhead piece in None)"

text \<open>
  \<^verbatim>\<open>getpseudoLegalMovesForPiece(piece)\<close>. First the value that the \<^verbatim>\<open>switch\<close> leaves in
  the local variable \<^verbatim>\<open>pseudoMoves\<close>; then the function itself, whose result is the
  lines it writes with \<^verbatim>\<open>console.log\<close> and its return value, \<open>None\<close> for
  \<^verbatim>\<open>undefined\<close>: no branch has a \<^verbatim>\<open>return\<close>.
\<close>

definition pseudoMoves :: "Board \<Rightarrow> Piece \<Rightarrow> error + Point list" where
  "pseudoMoves this piece =
     (case type piece of
        Bishop \<Rightarrow>
          (case getDiagonals (point piece) of
             Inl e \<Rightarrow> Inl e
           | Inr lineList \<Rightarrow> findUnblockedPointsOnLine this lineList (color piece))
      | Rook \<Rightarrow>
          (case getStraightLines (point piece) of
             Inl e \<Rightarrow> Inl e
           | Inr lineList \<Rightarrow> findUnblockedPointsOnLine this lineList (color piece))
      | Queen \<Rightarrow>
          (case getAllLines (point piece) of
             Inl e \<Rightarrow> Inl e
           | Inr lineList \<Rightarrow> findUnblockedPointsOnLine this lineList (color piece))
      | King \<Rightarrow> findUnblockedPoints this (getSurroundingPoints (point piece)) (color piece) True
      | Knight \<Rightarrow> findUnblockedPoints this (getKnightPoints (point piece)) (color piece) True
      | Pawn \<Rightarrow> (let pointList = getPawnPseudoMoves this piece in Inr []))"

definition typeName :: "PieceType \<Rightarrow> string" where
  "typeName t =
     (case t of
        Pawn \<Rightarrow> ''Pawn'' | Bishop \<Rightarrow> ''Bishop'' | Knight \<Rightarrow> ''Knight''
      | Rook \<Rightarrow> ''Rook'' | King \<Rightarrow> ''King'' | Queen \<Rightarrow> ''Queen'')"

definition getpseudoLegalMovesForPiece ::
  "Board \<Rightarrow> Piece \<Rightarrow> error + (string list \<times> Point list option)" where
  "getpseudoLegalMovesForPiece this piece =
     (case pseudoMoves this piece of
        Inl e \<Rightarrow> Inl e
      | Inr pm \<Rightarrow>
          Inr ((''The pseudomoves for the '' @ colorName (color piece) @ '' '' @
                  typeName (type piece) @ '' on '' @ sqvalText (square piece) @ '' are:'')
                # map (\<lambda>x. sqvalText (toAlgebraic x)) pm,
               None))"

text \<open>
  \<^verbatim>\<open>getpseudoLegalMoves()\<close>: the loop over \<^verbatim>\<open>this.pieces\<close> carries the console lines
  written so far and \<^verbatim>\<open>moves\<close>; \<^verbatim>\<open>if (newMoves)\<close> skips \<^verbatim>\<open>undefined\<close>.
\<close>

fun getpseudoLegalMoves_loop ::
  "Board \<Rightarrow> Piece list \<Rightarrow> string list \<Rightarrow> Point list \<Rightarrow> error + (string list \<times> Point list)" where
  "getpseudoLegalMoves_loop this [] out moves = Inr (out, moves)"
| "getpseudoLegalMoves_loop this (p # rest) out moves =
     (case getpseudoLegalMovesForPiece this p of
        Inl e \<Rightarrow> Inl e
      | Inr (printed, newMoves) \<Rightarrow>
          getpseudoLegalMoves_loop this rest (out @ printed)
            (case newMoves of None \<Rightarrow> moves | Some ms \<Rightarrow> moves @ ms))"

definition getpseudoLegalMoves :: "Board \<Rightarrow> error + (string list \<times> Point list)" where
  "getpseudoLegalMoves this = getpseudoLegalMoves_loop this (pieces this) [] []"

text \<open>
  \<^verbatim>\<open>setPositionFromFEN(fenString)\<close>. The \<^verbatim>\<open>while\<close> loop reads one row from \<^verbatim>\<open>index\<close> on,
  here the chars still to read; the \<^verbatim>\<open>for\<close> loop takes the ranks 0 to 7 and raises a
  TypeError on \<^verbatim>\<open>str.length\<close> when \<^verbatim>\<open>rows[i]\<close> is \<^verbatim>\<open>undefined\<close>. An exception ends
  the load; the board as partly written until then is not kept.
\<close>

definition pieceOfLetter :: "char \<Rightarrow> PieceType option" where
  "pieceOfLetter ch =
     (if ch = CHR ''P'' then Some Pawn
      else if ch = CHR ''B'' then Some Bishop
      else if ch = CHR ''N'' then Some Knight
      else if ch = CHR ''R'' then Some Rook
      else if ch = CHR ''K'' then Some King
      else if ch = CHR ''Q'' then Some Queen
      else None)"

fun setPositionFromFEN_row :: "Board \<Rightarrow> int \<Rightarrow> int \<Rightarrow> string \<Rightarrow> error + Board" where
  "setPositionFromFEN_row this r f [] = Inr this"
| "setPositionFromFEN_row this r f (ch # rest) =
     (if f \<le> 8 then
        (if isDigit ch then setPositionFromFEN_row this r (f + parseInt ch) rest
         else
           (let clr = (if ch \<in> set ''rnbkqp'' then Black else White);
                ch' = toUpperCase ch;
                pt = mkPoint f r;
                sq = toAlgebraic pt
            in case pieceOfLetter ch' of
                 Some t \<Rightarrow>
                   (case addPiece this t clr sq of
                      Inl e \<Rightarrow> Inl e
                    | Inr this' \<Rightarrow> setPositionFromFEN_row this' r (f + 1) rest)
               | None \<Rightarrow> setPositionFromFEN_row this r (f + 1) rest))
      else Inr this)"

fun setPositionFromFEN_ranks :: "Board \<Rightarrow> string list \<Rightarrow> nat list \<Rightarrow> error + Board" where
  "setPositionFromFEN_ranks this rows [] = Inr this"
| "setPositionFromFEN_ranks this rows (i # rest) =
     (if i < length rows then
        (case setPositionFromFEN_row this (int i) 0 (rows ! i) of
           Inl e \<Rightarrow> Inl e
         | Inr this' \<Rightarrow> setPositionFromFEN_ranks this' rows rest)
      else Inl TypeError)"

definition setPositionFromFEN :: "Board \<Rightarrow> string \<Rightarrow> error + Board" where
  "setPositionFromFEN this fenString =
     (let parts = splitOn CHR '' '' fenString;
          boardString = hd parts;
          rows = splitOn CHR ''/'' boardString
      in setPositionFromFEN_ranks this rows [0 ..< 8])"

text \<open>
  \<^verbatim>\<open>chess-finder.js\<close> holds an earlier copy of the three classes in one file. Its
  \<^verbatim>\<open>getpseudoLegalMovesForPiece\<close> has the cases of bishop, rook and queen only, and its
  \<^verbatim>\<open>findUnblockedPoints(lines, color)\<close> is the line walk above, statement by statement;
  the rest of what is modelled here is the same text in both.
\<close>

definition chessFinder_pseudoMoves :: "Board \<Rightarrow> Piece \<Rightarrow> error + Point list" where
  "chessFinder_pseudoMoves this piece =
     (case type piece of
        Bishop \<Rightarrow>
          (case getDiagonals (point piece) of
             Inl e \<Rightarrow> Inl e
           | Inr lineList \<Rightarrow> findUnblockedPointsOnLine this lineList (color piece))
      | Rook \<Rightarrow>
          (case getStraightLines (point piece) of
             Inl e \<Rightarrow> Inl e
           | Inr lineList \<Rightarrow> findUnblockedPointsOnLine this lineList (color piece))
      | Queen \<Rightarrow>
          (case getAllLines (point piece) of
             Inl e \<Rightarrow> Inl e
           | Inr lineList \<Rightarrow> findUnblockedPointsOnLine this lineList (color piece))
      | _ \<Rightarrow> Inr [])"

definition chessFinder_getpseudoLegalMovesForPiece ::
  "Board \<Rightarrow> Piece \<Rightarrow> error + (string list \<times> Point list option)" where
  "chessFinder_getpseudoLegalMovesForPiece this piece =
     (case chessFinder_pseudoMoves this piece of
        Inl e \<Rightarrow> Inl e
      | Inr pm \<Rightarrow>
          Inr (if type piece = Bishop \<or> type piece = Rook \<or> type piece = Queen
               then (''The pseudomoves for the '' @ colorName (color piece) @ '' '' @
                       typeName (type piece) @ '' on '' @ sqvalText (square piece) @ '' are:'')
                     # map (\<lambda>x. sqvalText (toAlgebraic x)) pm
               else [],
               None))"

fun chessFinder_getpseudoLegalMoves_loop ::
  "Board \<Rightarrow> Piece list \<Rightarrow> string list \<Rightarrow> Point list \<Rightarrow> error + (string list \<times> Point list)" where
  "chessFinder_getpseudoLegalMoves_loop this [] out moves = Inr (out, moves)"
| "chessFinder_getpseudoLegalMoves_loop this (p # rest) out moves =
     (case chessFinder_getpseudoLegalMovesForPiece this p of
        Inl e \<Rightarrow> Inl e
      | Inr (printed, newMoves) \<Rightarrow>
          chessFinder_getpseudoLegalMoves_loop this rest (out @ printed)
            (case newMoves of None \<Rightarrow> moves | Some ms \<Rightarrow> moves @ ms))"

definition chessFinder_getpseudoLegalMoves :: "Board \<Rightarrow> error + (string list \<times> Point list)" where
  "chessFinder_getpseudoLegalMoves this =
     chessFinder_getpseudoLegalMoves_loop this (pieces this) [] []"

section \<open>Notions of the specification and of the proofs\<close>

text \<open>The Chebyshev distance of two points: the larger of the two coordinate distances.\<close>

definition chebyshev :: "Point \<Rightarrow> Point \<Rightarrow> int" where
  "chebyshev a b = max \<bar>file b - file a\<bar> \<bar>rank b - rank a\<bar>"

text \<open>
  The points at \<open>k\<close>, \<open>k + 1\<close>, ... steps from a point in a direction, \<open>n\<close> of them: the
  closed form of what the loop of \<^verbatim>\<open>getLine\<close> collects.
\<close>

definition ray :: "Point \<Rightarrow> int \<Rightarrow> int \<Rightarrow> nat \<Rightarrow> nat \<Rightarrow> Point list" where
  "ray this dx dy k n =
     map (\<lambda>j. mkPoint (file this + int j * dx) (rank this + int j * dy)) [k ..< k + n]"

text \<open>Two results in sequence: the first exception, or the two lists appended.\<close>

fun appendResult :: "error + 'a list \<Rightarrow> error + 'a list \<Rightarrow> error + 'a list" where
  "appendResult (Inl e) y = Inl e"
| "appendResult (Inr v) (Inl e) = Inl e"
| "appendResult (Inr v) (Inr w) = Inr (v @ w)"

text \<open>
  Boards of the examples: a white rook placed on d4 of the empty board; that board with
  a white pawn placed on d6; and with a black king placed on d5.
\<close>

definition whiteRook :: Piece where
  "whiteRook = \<lparr>type = Rook, color = White, point = \<lparr>file = 3, rank = 4\<rparr>\<rparr>"

definition rookD4 :: Board where
  "rookD4 = newBoard(3 := (newBoard 3)(3 := Some whiteRook))"

definition rookD4_pawnD6 :: Board where
  "rookD4_pawnD6 =
     rookD4(5 := (rookD4 5)(3 := Some \<lparr>type = Pawn, color = White, point = \<lparr>file = 3, rank = 2\<rparr>\<rparr>))"

definition rookD4_kingD5 :: Board where
  "rookD4_kingD5 =
     rookD4(4 := (rookD4 4)(3 := Some \<lparr>type = King, color = Black, point = \<lparr>file = 3, rank = 3\<rparr>\<rparr>))"

section \<open>Evaluation\<close>

lemmas eval_defs = setPositionFromFEN_def addPiece_def setPieceAtSquare_def algebraicToPoint_def
  toAlgebraic_def numberToString_def showNat.simps charAt_def indexOfLetter_def toNumber_def
  isDigit_def parseInt_def isStrWhiteSpace_def toUpperCase_def pieceOfLetter_def mkPoint_def
  getPieceAtSquare_def Let_def upt_rec[of _ "numeral _"] upt_rec[of _ "Suc _"] indexOf.simps whiteRook_def rookD4_def rookD4_pawnD6_def rookD4_kingD5_def
  newBoard_def

lemma rookD4_placed: "addPiece newBoard Rook White (Str ''d4'') = Inr rookD4"
  by (simp add: eval_defs)

lemma rookD4_pawnD6_placed: "addPiece rookD4 Pawn White (Str ''d6'') = Inr rookD4_pawnD6"
  by (simp add: eval_defs)

lemma rookD4_kingD5_placed: "addPiece rookD4 King Black (Str ''d5'') = Inr rookD4_kingD5"
  by (simp add: eval_defs)

lemma north_ray: "getLine (point whiteRook) 0 (- 1) =
    Inr [\<lparr>file = 3, rank = 3\<rparr>, \<lparr>file = 3, rank = 2\<rparr>, \<lparr>file = 3, rank = 1\<rparr>, \<lparr>file = 3, rank = 0\<rparr>]"
  by (simp add: getLine_def getLine_loop.simps mkPoint_def whiteRook_def)

lemma pieces_rookD4: "pieces rookD4 = [whiteRook]"
  by (simp add: pieces_def rookD4_def newBoard_def List.map_filter_def upto.simps)

lemma straight_rookD4: "getStraightLines (point whiteRook) =
  Inr [[\<lparr>file = 2, rank = 4\<rparr>, \<lparr>file = 1, rank = 4\<rparr>, \<lparr>file = 0, rank = 4\<rparr>],
       [\<lparr>file = 4, rank = 4\<rparr>, \<lparr>file = 5, rank = 4\<rparr>, \<lparr>file = 6, rank = 4\<rparr>, \<lparr>file = 7, rank = 4\<rparr>],
       [\<lparr>file = 3, rank = 3\<rparr>, \<lparr>file = 3, rank = 2\<rparr>, \<lparr>file = 3, rank = 1\<rparr>, \<lparr>file = 3, rank = 0\<rparr>],
       [\<lparr>file = 3, rank = 5\<rparr>, \<lparr>file = 3, rank = 6\<rparr>, \<lparr>file = 3, rank = 7\<rparr>]]"
  by (simp add: getStraightLines_def getLine_def getLine_loop.simps mkPoint_def whiteRook_def)

lemma pseudoMoves_rookD4: "pseudoMoves rookD4 whiteRook =
  Inr [\<lparr>file = 2, rank = 4\<rparr>, \<lparr>file = 1, rank = 4\<rparr>, \<lparr>file = 0, rank = 4\<rparr>,
       \<lparr>file = 4, rank = 4\<rparr>, \<lparr>file = 5, rank = 4\<rparr>, \<lparr>file = 6, rank = 4\<rparr>, \<lparr>file = 7, rank = 4\<rparr>,
       \<lparr>file = 3, rank = 3\<rparr>, \<lparr>file = 3, rank = 2\<rparr>, \<lparr>file = 3, rank = 1\<rparr>, \<lparr>file = 3, rank = 0\<rparr>,
       \<lparr>file = 3, rank = 5\<rparr>, \<lparr>file = 3, rank = 6\<rparr>, \<lparr>file = 3, rank = 7\<rparr>]"
proof -
  have "type whiteRook = Rook" "color whiteRook = White" by (simp_all add: whiteRook_def)
  then show ?thesis
    by (simp add: pseudoMoves_def straight_rookD4 findUnblockedPointsOnLine_def)
       (simp add: eval_defs)
qed

lemma pseudoMoves_rookD4_pawnD6: "pseudoMoves rookD4_pawnD6 whiteRook =
  Inr [\<lparr>file = 2, rank = 4\<rparr>, \<lparr>file = 1, rank = 4\<rparr>, \<lparr>file = 0, rank = 4\<rparr>,
       \<lparr>file = 4, rank = 4\<rparr>, \<lparr>file = 5, rank = 4\<rparr>, \<lparr>file = 6, rank = 4\<rparr>, \<lparr>file = 7, rank = 4\<rparr>,
       \<lparr>file = 3, rank = 3\<rparr>,
       \<lparr>file = 3, rank = 5\<rparr>, \<lparr>file = 3, rank = 6\<rparr>, \<lparr>file = 3, rank = 7\<rparr>]"
proof -
  have "type whiteRook = Rook" "color whiteRook = White" by (simp_all add: whiteRook_def)
  then show ?thesis
    by (simp add: pseudoMoves_def straight_rookD4 findUnblockedPointsOnLine_def)
       (simp add: eval_defs)
qed

lemma pseudoMoves_rookD4_kingD5: "pseudoMoves rookD4_kingD5 whiteRook =
  Inr [\<lparr>file = 2, rank = 4\<rparr>, \<lparr>file = 1, rank = 4\<rparr>, \<lparr>file = 0, rank = 4\<rparr>,
       \<lparr>file = 4, rank = 4\<rparr>, \<lparr>file = 5, rank = 4\<rparr>, \<lparr>file = 6, rank = 4\<rparr>, \<lparr>file = 7, rank = 4\<rparr>,
       \<lparr>file = 3, rank = 2\<rparr>, \<lparr>file = 3, rank = 1\<rparr>, \<lparr>file = 3, rank = 0\<rparr>,
       \<lparr>file = 3, rank = 5\<rparr>, \<lparr>file = 3, rank = 6\<rparr>, \<lparr>file = 3, rank = 7\<rparr>]"
proof -
  have "type whiteRook = Rook" "color whiteRook = White" by (simp_all add: whiteRook_def)
  then show ?thesis
    by (simp add: pseudoMoves_def straight_rookD4 findUnblockedPointsOnLine_def)
       (simp add: eval_defs)
qed

lemma squares_rookD4:
  "map (\<lambda>s. algebraicToPoint (Str s))
     [''c4'', ''b4'', ''a4'', ''e4'', ''f4'', ''g4'', ''h4'', ''d5'', ''d6'', ''d7'', ''d8'', ''d3'', ''d2'', ''d1''] =
   map Some
      [\<lparr>file = 2, rank = 4\<rparr>, \<lparr>file = 1, rank = 4\<rparr>, \<lparr>file = 0, rank = 4\<rparr>,
       \<lparr>file = 4, rank = 4\<rparr>, \<lparr>file = 5, rank = 4\<rparr>, \<lparr>file = 6, rank = 4\<rparr>, \<lparr>file = 7, rank = 4\<rparr>,
       \<lparr>file = 3, rank = 3\<rparr>, \<lparr>file = 3, rank = 2\<rparr>, \<lparr>file = 3, rank = 1\<rparr>, \<lparr>file = 3, rank = 0\<rparr>,
       \<lparr>file = 3, rank = 5\<rparr>, \<lparr>file = 3, rank = 6\<rparr>, \<lparr>file = 3, rank = 7\<rparr>]"
  by (simp add: eval_defs)

lemma printed_rookD4: "getpseudoLegalMovesForPiece rookD4 whiteRook =
  Inr ([''The pseudomoves for the white Rook on d5 are:'', ''c5'', ''b5'', ''a5'', ''e5'', ''f5'',
        ''g5'', ''h5'', ''d4'', ''d3'', ''d2'', ''d1'', ''d6'', ''d7'', ''d8''], None)"
  by (simp add: getpseudoLegalMovesForPiece_def pseudoMoves_rookD4)
     (simp add: eval_defs colorName_def typeName_def sqvalText_def square_def)

lemma all_rookD4: "getpseudoLegalMoves rookD4 =
  Inr ([''The pseudomoves for the white Rook on d5 are:'', ''c5'', ''b5'', ''a5'', ''e5'', ''f5'',
        ''g5'', ''h5'', ''d4'', ''d3'', ''d2'', ''d1'', ''d6'', ''d7'', ''d8''], [])"
  by (simp add: getpseudoLegalMoves_def pieces_rookD4 printed_rookD4)

lemma fen_rook_loaded: "setPositionFromFEN newBoard ''8/8/8/8/8/8/8/R7'' =
   Inr (newBoard(7 := (newBoard 7)(0 := Some \<lparr>type = Rook, color = White, point = \<lparr>file = 0, rank = 0\<rparr>\<rparr>)))"
  by (simp add: eval_defs)

section \<open>Squares and points\<close>

lemma int_range_0_7: "0 \<le> (i::int) \<Longrightarrow> i \<le> 7 \<Longrightarrow> i \<in> {0,1,2,3,4,5,6,7}"
  by auto

lemma showNat_digit: "n < 10 \<Longrightarrow> showNat n = [''0123456789'' ! n]"
  by (simp add: showNat.simps)

lemma toAlgebraic_inBounds:
  assumes "isValid p"
  shows "toAlgebraic p = Str [''abcdefgh'' ! nat (file p), ''12345678'' ! nat (rank p)]"
proof -
  from assms have r: "rank p \<in> {0,1,2,3,4,5,6,7}" and f: "0 \<le> file p" "file p \<le> 7"
    by (auto simp: isValid_def isInBounds_def)
  from r have "numberToString (rank p + 1) = [''12345678'' ! nat (rank p)]"
    by (auto simp: numberToString_def showNat_digit)
  with f show ?thesis by (simp add: toAlgebraic_def)
qed

lemma indexOfLetter_nth:
  "0 \<le> f \<Longrightarrow> f \<le> 7 \<Longrightarrow> indexOfLetter (Some (''abcdefgh'' ! nat f)) = f"
  using int_range_0_7[of f] by (auto simp: indexOfLetter_def)

lemma toNumber_nth:
  "0 \<le> r \<Longrightarrow> r \<le> 7 \<Longrightarrow> toNumber (Some (''12345678'' ! nat r)) = Some (r + 1)"
  using int_range_0_7[of r] by (auto simp: toNumber_def isDigit_def parseInt_def)

lemma algebraicToPoint_toAlgebraic:
  assumes "isValid p"
  shows "algebraicToPoint (toAlgebraic p) = Some (mkPoint (file p) (7 - rank p))"
proof -
  from assms have b: "0 \<le> file p" "file p \<le> 7" "0 \<le> rank p" "rank p \<le> 7"
    by (auto simp: isValid_def isInBounds_def)
  show ?thesis
    by (simp add: toAlgebraic_inBounds[OF assms] algebraicToPoint_def charAt_def
        indexOfLetter_nth[OF b(1,2)] toNumber_nth[OF b(3,4)])
qed

lemma getPieceAtSquare_toAlgebraic:
  assumes "isValid p"
  shows "getPieceAtSquare b (toAlgebraic p) =
     Inr (case b (7 - rank p) (file p) of Some pc \<Rightarrow> Occ pc | None \<Rightarrow> Null)"
proof -
  from assms have b: "0 \<le> file p" "file p \<le> 7" "0 \<le> rank p" "rank p \<le> 7"
    by (auto simp: isValid_def isInBounds_def)
  then show ?thesis
    by (simp add: getPieceAtSquare_def algebraicToPoint_toAlgebraic[OF assms] mkPoint_def)
qed

lemma validSquare_cases:
  assumes "validSquare s"
  obtains l d where "s = [l, d]" "l \<in> set ''abcdefgh''" "d \<in> set ''12345678''"
  using assms by (auto simp: validSquare_def split: list.splits)

lemma file_letter:
  "l \<in> set ''abcdefgh'' \<Longrightarrow>
   0 \<le> indexOf ''abcdefgh'' l \<and> indexOf ''abcdefgh'' l \<le> 7 \<and>
   ''abcdefgh'' ! nat (indexOf ''abcdefgh'' l) = l"
  by auto

lemma rank_digit:
  "d \<in> set ''12345678'' \<Longrightarrow>
   isDigit d \<and> 1 \<le> parseInt d \<and> parseInt d \<le> 8 \<and>
   numberToString (9 - parseInt d) \<noteq> [d] \<and> toNumber (Some d) = Some (parseInt d)"
  by (auto simp: isDigit_def parseInt_def toNumber_def numberToString_def showNat.simps)

lemma algebraicToPoint_valid:
  assumes "validSquare s"
  shows "\<exists>p. algebraicToPoint (Str s) = Some p \<and> setSquare p0 s = Inr p \<and> isValid p
           \<and> ''abcdefgh'' ! nat (file p) = s ! 0 \<and> rank p = 8 - parseInt (s ! 1)"
proof -
  from assms obtain l d where s: "s = [l, d]" "l \<in> set ''abcdefgh''" "d \<in> set ''12345678''"
    by (rule validSquare_cases)
  define f where "f = indexOf ''abcdefgh'' l"
  define p where "p = mkPoint f (8 - parseInt d)"
  from file_letter[OF s(2)] have f: "0 \<le> f" "f \<le> 7" "''abcdefgh'' ! nat f = l"
    by (simp_all add: f_def)
  note d = rank_digit[OF s(3)]
  have "algebraicToPoint (Str s) = Some p"
    using d by (simp add: s(1) algebraicToPoint_def charAt_def indexOfLetter_def p_def f_def)
  moreover have "setSquare p0 s = Inr p"
    using assms by (simp add: setSquare_def s(1) p_def f_def mkPoint_def)
  moreover have "isValid p"
    using f d by (simp add: isValid_def isInBounds_def p_def mkPoint_def)
  moreover have "''abcdefgh'' ! nat (file p) = s ! 0" "rank p = 8 - parseInt (s ! 1)"
    using f by (simp_all add: p_def mkPoint_def s(1))
  ultimately show ?thesis by blast
qed

lemma getPieceAtSquare_valid:
  assumes "validSquare s"
  shows "\<exists>p. algebraicToPoint (Str s) = Some p \<and> isValid p
           \<and> ''abcdefgh'' ! nat (file p) = s ! 0 \<and> rank p = 8 - parseInt (s ! 1)
           \<and> getPieceAtSquare b (Str s) =
               Inr (case b (rank p) (file p) of Some pc \<Rightarrow> Occ pc | None \<Rightarrow> Null)"
proof -
  from algebraicToPoint_valid[OF assms] obtain p where
    p: "algebraicToPoint (Str s) = Some p" "isValid p"
       "''abcdefgh'' ! nat (file p) = s ! 0" "rank p = 8 - parseInt (s ! 1)"
    by blast
  from p(2) have "0 \<le> rank p \<and> rank p \<le> 7 \<and> 0 \<le> file p"
    by (simp add: isValid_def isInBounds_def)
  then have "getPieceAtSquare b (Str s) =
      Inr (case b (rank p) (file p) of Some pc \<Rightarrow> Occ pc | None \<Rightarrow> Null)"
    by (simp add: getPieceAtSquare_def p(1))
  with p show ?thesis by blast
qed

lemma digit_one: "d \<in> set ''12345678'' \<Longrightarrow> parseInt d = 1 \<Longrightarrow> d = CHR ''1''"
  by (auto simp: parseInt_def)

text \<open>
  C5. The claim: for every valid square \<open>s\<close>, \<^verbatim>\<open>algebraicToPoint\<close> (or \<^verbatim>\<open>setSquare\<close>)
  followed by \<^verbatim>\<open>toAlgebraic\<close> gives \<open>s\<close> again. The code does not do that on any valid
  square: both conversions to a point give rank \<open>8 - n\<close> for the digit \<open>n\<close>, as the
  comment of \<^verbatim>\<open>toAlgebraic\<close> says (a8 is (0, 0), h1 is (7, 7)), and \<^verbatim>\<open>toAlgebraic\<close> prints
  \<open>rank + 1\<close>, so that the way back names the square of the same file on rank \<open>9 - n\<close>.
\<close>

theorem roundtrip_mirrors_rank:
  assumes "validSquare s"
  shows "\<exists>p. algebraicToPoint (Str s) = Some p \<and> setSquare p0 s = Inr p
           \<and> toAlgebraic p = Str (s ! 0 # numberToString (9 - parseInt (s ! 1)))
           \<and> toAlgebraic p \<noteq> Str s"
proof -
  from assms obtain l d where s: "s = [l, d]" "l \<in> set ''abcdefgh''" "d \<in> set ''12345678''"
    by (rule validSquare_cases)
  from algebraicToPoint_valid[OF assms, of p0] obtain p where
    p: "algebraicToPoint (Str s) = Some p" "setSquare p0 s = Inr p" "isValid p"
       "''abcdefgh'' ! nat (file p) = s ! 0" "rank p = 8 - parseInt (s ! 1)"
    by blast
  from p(3) have "0 \<le> file p \<and> file p \<le> 7" by (simp add: isValid_def isInBounds_def)
  then have 3: "toAlgebraic p = Str (s ! 0 # numberToString (9 - parseInt (s ! 1)))"
    by (simp add: toAlgebraic_def p(4,5) algebra_simps)
  have 4: "toAlgebraic p \<noteq> Str s"
    using rank_digit[OF s(3)] by (simp add: 3 s(1))
  from p(1,2) 3 4 show ?thesis by blast
qed

theorem roundtrip_mirrors_rank_witness:
  "validSquare ''a1'' \<and> algebraicToPoint (Str ''a1'') = Some \<lparr>file = 0, rank = 7\<rparr>
   \<and> setSquare \<lparr>file = 0, rank = 0\<rparr> ''a1'' = Inr \<lparr>file = 0, rank = 7\<rparr>
   \<and> toAlgebraic \<lparr>file = 0, rank = 7\<rparr> = Str ''a8''"
proof -
  have v: "validSquare ''a1''" by (simp add: validSquare_def)
  from roundtrip_mirrors_rank[OF v, of "\<lparr>file = 0, rank = 0\<rparr>"] v show ?thesis
    by (simp add: eval_defs)
qed

section \<open>Placing, reading and clearing\<close>

text \<open>
  C6. The claim: after \<^verbatim>\<open>addPiece(type, color, s)\<close> on a valid square \<open>s\<close>,
  \<^verbatim>\<open>getPieceAtSquare(s)\<close> returns the piece just placed. The code stores the piece in row
  \<open>7 - rank\<close> and reads row \<open>rank\<close>, so placing a piece on \<open>s\<close> never changes what is
  read at \<open>s\<close>; the piece is read back at the square that \<^verbatim>\<open>toAlgebraic\<close> names for its
  point.
\<close>

theorem addPiece_not_read_back:
  assumes "validSquare s"
  shows "\<exists>b' p. addPiece b t c (Str s) = Inr b' \<and> algebraicToPoint (Str s) = Some p
           \<and> getPieceAtSquare b' (Str s) = getPieceAtSquare b (Str s)
           \<and> getPieceAtSquare b' (toAlgebraic p) = Inr (Occ \<lparr>type = t, color = c, point = p\<rparr>)"
proof -
  from algebraicToPoint_valid[OF assms] obtain p where
    p: "algebraicToPoint (Str s) = Some p" and v: "isValid p"
    by blast
  let ?b = "b (7 - rank p := (b (7 - rank p)) (file p := Some \<lparr>type = t, color = c, point = p\<rparr>))"
  from v have bounds: "0 \<le> rank p" "rank p \<le> 7" by (simp_all add: isValid_def isInBounds_def)
  then have 1: "addPiece b t c (Str s) = Inr ?b"
    by (simp add: addPiece_def setPieceAtSquare_def p)
  have ne: "7 - rank p \<noteq> rank p" by presburger
  have 2: "getPieceAtSquare ?b (Str s) = getPieceAtSquare b (Str s)"
    using ne by (simp add: getPieceAtSquare_def p)
  have 3: "getPieceAtSquare ?b (toAlgebraic p) = Inr (Occ \<lparr>type = t, color = c, point = p\<rparr>)"
    by (simp add: getPieceAtSquare_toAlgebraic[OF v])
  from 1 p 2 3 show ?thesis by blast
qed

theorem addPiece_not_read_back_witness:
  "validSquare ''a1''
   \<and> addPiece newBoard Rook White (Str ''a1'') =
       Inr (newBoard(0 := (newBoard 0)(0 := Some \<lparr>type = Rook, color = White, point = \<lparr>file = 0, rank = 7\<rparr>\<rparr>)))
   \<and> getPieceAtSquare (newBoard(0 := (newBoard 0)(0 := Some \<lparr>type = Rook, color = White, point = \<lparr>file = 0, rank = 7\<rparr>\<rparr>)))
        (Str ''a1'') = Inr Null
   \<and> getPieceAtSquare (newBoard(0 := (newBoard 0)(0 := Some \<lparr>type = Rook, color = White, point = \<lparr>file = 0, rank = 7\<rparr>\<rparr>)))
        (Str ''a8'') = Inr (Occ \<lparr>type = Rook, color = White, point = \<lparr>file = 0, rank = 7\<rparr>\<rparr>)"
proof -
  have v: "validSquare ''a1''" by (simp add: validSquare_def)
  from addPiece_not_read_back[OF v, of newBoard Rook White] v show ?thesis
    by (simp add: eval_defs)
qed

text \<open>
  C8. The claim: \<^verbatim>\<open>clearSquare(s)\<close> succeeds and leaves the square empty. The code passes
  null to \<^verbatim>\<open>setPieceAtSquare\<close>, whose assignment \<^verbatim>\<open>piece.point = point\<close> raises a
  TypeError on null before anything is stored: every call fails, on every board and
  square.
\<close>

theorem clearSquare_throws: "clearSquare b sq = Inl TypeError"
  by (simp add: clearSquare_def setPieceAtSquare_def)

theorem clearSquare_throws_witness:
  "clearSquare rookD4 (Str ''d4'') = Inl TypeError \<and> clearSquare newBoard (Str ''a1'') = Inl TypeError"
  using clearSquare_throws[of rookD4 "Str ''d4''"] clearSquare_throws[of newBoard "Str ''a1''"]
  by simp

section \<open>Lines\<close>

lemma length_ray: "length (ray this dx dy k n) = n"
  by (simp add: ray_def)

lemma ray_Suc:
  "ray this dx dy k (Suc n) =
     mkPoint (file this + int k * dx) (rank this + int k * dy) # ray this dx dy (Suc k) n"
proof -
  have "[k ..< k + Suc n] = k # [Suc k ..< Suc k + n]"
    by (simp add: upt_conv_Cons del: upt_Suc)
  then show ?thesis by (simp add: ray_def del: upt_Suc)
qed

lemma getLine_loop_stop:
  "(dx = 0 \<and> dy = 0) \<or> \<not> isInBounds f r \<Longrightarrow> getLine_loop this dx dy r f points = points"
  by (subst getLine_loop.simps) (auto simp: isInBounds_def)

lemma getLine_loop_step:
  "\<not> (dx = 0 \<and> dy = 0) \<Longrightarrow> isInBounds f r \<Longrightarrow>
   getLine_loop this dx dy r f points =
     getLine_loop this dx dy (r + dy) (f + dx)
       (if \<not> (r = rank this \<and> f = file this) then points @ [mkPoint f r] else points)"
  by (subst getLine_loop.simps) (auto simp: isInBounds_def)

lemma getLine_loop_valid:
  "p \<in> set (getLine_loop this dx dy r f points) \<Longrightarrow> p \<in> set points \<or> isValid p"
proof (induction this dx dy r f points rule: getLine_loop.induct)
  case (1 this dx dy r f points)
  show ?case
  proof (cases "(dx = 0 \<and> dy = 0) \<or> \<not> isInBounds f r")
    case True
    with "1.prems" show ?thesis by (simp add: getLine_loop_stop)
  next
    case False
    then have nz: "\<not> (dx = 0 \<and> dy = 0)" and inb: "isInBounds f r" by auto
    from inb have inb': "0 \<le> r \<and> r \<le> 7 \<and> 0 \<le> f \<and> f \<le> 7" by (auto simp: isInBounds_def)
    from "1.prems" have "p \<in> set (getLine_loop this dx dy (r + dy) (f + dx)
          (if \<not> (r = rank this \<and> f = file this) then points @ [mkPoint f r] else points))"
      by (simp add: getLine_loop_step[OF nz inb])
    from "1.IH"[OF nz inb' this]
    have "p \<in> set (if \<not> (r = rank this \<and> f = file this) then points @ [mkPoint f r] else points) \<or> isValid p" .
    with inb show ?thesis
      by (auto simp: isValid_def mkPoint_def split: if_splits)
  qed
qed

lemma getLine_loop_ray:
  "dx \<noteq> 0 \<or> dy \<noteq> 0 \<Longrightarrow> 1 \<le> k \<Longrightarrow> r = rank this + int k * dy \<Longrightarrow> f = file this + int k * dx \<Longrightarrow>
   \<exists>n. getLine_loop this dx dy r f points = points @ ray this dx dy k n"
proof (induction this dx dy r f points arbitrary: k rule: getLine_loop.induct)
  case (1 this dx dy r f points)
  show ?case
  proof (cases "isInBounds f r")
    case False
    then have "getLine_loop this dx dy r f points = points @ ray this dx dy k 0"
      by (simp add: getLine_loop_stop ray_def)
    then show ?thesis by blast
  next
    case True
    then have inb': "0 \<le> r \<and> r \<le> 7 \<and> 0 \<le> f \<and> f \<le> 7" by (auto simp: isInBounds_def)
    from "1.prems" have ne: "\<not> (r = rank this \<and> f = file this)" by auto
    from "1.prems" have nz: "\<not> (dx = 0 \<and> dy = 0)" by simp
    have nx: "r + dy = rank this + int (Suc k) * dy" "f + dx = file this + int (Suc k) * dx"
      using "1.prems" by (simp_all add: algebra_simps)
    have "\<exists>n. getLine_loop this dx dy (r + dy) (f + dx)
         (if \<not> (r = rank this \<and> f = file this) then points @ [mkPoint f r] else points) =
       (if \<not> (r = rank this \<and> f = file this) then points @ [mkPoint f r] else points) @ ray this dx dy (Suc k) n"
      by (rule "1.IH"[OF nz inb' "1.prems"(1) _ nx]) simp
    then obtain n where
      "getLine_loop this dx dy (r + dy) (f + dx) (points @ [mkPoint f r]) =
         (points @ [mkPoint f r]) @ ray this dx dy (Suc k) n"
      using ne by auto
    with True nz ne have "getLine_loop this dx dy r f points = points @ mkPoint f r # ray this dx dy (Suc k) n"
      by (simp add: getLine_loop_step)
    also have "mkPoint f r # ray this dx dy (Suc k) n = ray this dx dy k (Suc n)"
      using "1.prems" by (simp add: ray_Suc)
    finally show ?thesis by blast
  qed
qed

lemma getLine_ray:
  assumes "dx \<noteq> 0 \<or> dy \<noteq> 0"
  shows "\<exists>n. getLine this dx dy = Inr (ray this dx dy 1 n)"
proof (cases "isInBounds (file this) (rank this)")
  case False
  with assms have "getLine this dx dy = Inr (ray this dx dy 1 0)"
    by (auto simp: getLine_def getLine_loop_stop ray_def)
  then show ?thesis by blast
next
  case True
  have "\<exists>n. getLine_loop this dx dy (rank this + dy) (file this + dx) [] = [] @ ray this dx dy 1 n"
    by (rule getLine_loop_ray[OF assms]) simp_all
  then obtain n where "getLine_loop this dx dy (rank this + dy) (file this + dx) [] = ray this dx dy 1 n"
    by auto
  with True assms have "getLine this dx dy = Inr (ray this dx dy 1 n)"
    by (auto simp: getLine_def getLine_loop_step)
  then show ?thesis by blast
qed

lemma getLine_valid:
  "getLine this dx dy = Inr ps \<Longrightarrow> p \<in> set ps \<Longrightarrow> isValid p"
  using getLine_loop_valid[of p this dx dy "rank this" "file this" "[]"]
  by (auto simp: getLine_def split: if_splits)

lemma chebyshev_ray:
  assumes "dx \<in> {- 1, 0, 1}" "dy \<in> {- 1, 0, 1}" "dx \<noteq> 0 \<or> dy \<noteq> 0" "i < n"
  shows "chebyshev this (ray this dx dy k n ! i) = int (k + i)"
  using assms by (auto simp: ray_def chebyshev_def mkPoint_def abs_mult)

text \<open>
  C10. For every origin and each of the eight directions (deltas in \<open>{- 1, 0, 1}\<close>, not
  both 0), \<^verbatim>\<open>getLine\<close> returns normally, every point it yields has file and rank in
  0..7, and each point is strictly farther from the origin in Chebyshev distance than
  the point yielded before it.
\<close>

theorem getLine_in_bounds_and_farther:
  assumes "dx \<in> {- 1, 0, 1}" and "dy \<in> {- 1, 0, 1}" and "(dx, dy) \<noteq> (0, 0)"
  shows "\<exists>ps. getLine origin dx dy = Inr ps
           \<and> (\<forall>p \<in> set ps. 0 \<le> file p \<and> file p \<le> 7 \<and> 0 \<le> rank p \<and> rank p \<le> 7)
           \<and> (\<forall>i. Suc i < length ps \<longrightarrow> chebyshev origin (ps ! i) < chebyshev origin (ps ! Suc i))"
proof -
  from assms(3) have nz: "dx \<noteq> 0 \<or> dy \<noteq> 0" by simp
  from getLine_ray[OF nz] obtain n where g: "getLine origin dx dy = Inr (ray origin dx dy 1 n)"
    by blast
  have "\<forall>p \<in> set (ray origin dx dy 1 n). 0 \<le> file p \<and> file p \<le> 7 \<and> 0 \<le> rank p \<and> rank p \<le> 7"
    using getLine_valid[OF g] by (auto simp: isValid_def isInBounds_def)
  moreover have "\<forall>i. Suc i < length (ray origin dx dy 1 n) \<longrightarrow>
      chebyshev origin (ray origin dx dy 1 n ! i) < chebyshev origin (ray origin dx dy 1 n ! Suc i)"
  proof (intro allI impI)
    fix i assume "Suc i < length (ray origin dx dy 1 n)"
    then have "i < n" "Suc i < n" by (simp_all add: length_ray)
    then show "chebyshev origin (ray origin dx dy 1 n ! i) < chebyshev origin (ray origin dx dy 1 n ! Suc i)"
      by (simp add: chebyshev_ray[OF assms(1,2) nz])
  qed
  ultimately show ?thesis using g by blast
qed

theorem getLine_in_bounds_and_farther_witness:
  "getLine \<lparr>file = 3, rank = 4\<rparr> 0 (- 1) =
     Inr [\<lparr>file = 3, rank = 3\<rparr>, \<lparr>file = 3, rank = 2\<rparr>, \<lparr>file = 3, rank = 1\<rparr>, \<lparr>file = 3, rank = 0\<rparr>]
   \<and> map (chebyshev \<lparr>file = 3, rank = 4\<rparr>)
       [\<lparr>file = 3, rank = 3\<rparr>, \<lparr>file = 3, rank = 2\<rparr>, \<lparr>file = 3, rank = 1\<rparr>, \<lparr>file = 3, rank = 0\<rparr>] = [1, 2, 3, 4]"
proof -
  have h: "(0::int) \<in> {- 1, 0, 1}" "(- 1::int) \<in> {- 1, 0, 1}" "((0::int), (- 1::int)) \<noteq> (0, 0)"
    by simp_all
  from getLine_in_bounds_and_farther[OF h(1,2), of "\<lparr>file = 3, rank = 4\<rparr>"] show ?thesis
    by (simp add: getLine_def getLine_loop.simps mkPoint_def chebyshev_def)
qed

section \<open>Walking the lines\<close>

lemma inner_empty_prefix:
  "\<forall>q \<in> set pre. getPieceAtSquare b (toAlgebraic q) = Inr Null \<Longrightarrow>
   findUnblockedPointsOnLine_inner b c (pre @ rest) acc =
     findUnblockedPointsOnLine_inner b c rest (acc @ pre)"
  by (induction pre arbitrary: acc) simp_all

lemma appendResult_Nil [simp]: "appendResult (Inr []) y = y"
  by (cases y) simp_all

lemma appendResult_snoc: "appendResult (Inr (acc @ [p])) y = appendResult (Inr acc) (appendResult (Inr [p]) y)"
  by (cases y) simp_all

lemma inner_acc:
  "findUnblockedPointsOnLine_inner b c line acc =
     appendResult (Inr acc) (findUnblockedPointsOnLine_inner b c line [])"
proof (induction line arbitrary: acc)
  case Nil
  show ?case by simp
next
  case (Cons p rest)
  note ih1 = Cons.IH[of "acc @ [p]"] and ih2 = Cons.IH[of "[p]"] and ih3 = Cons.IH[of acc]
  show ?case
  proof (cases "getPieceAtSquare b (toAlgebraic p)")
    case (Inl e)
    then show ?thesis by simp
  next
    case (Inr x)
    then show ?thesis
      using ih1 ih2 ih3 by (cases x) (simp_all add: appendResult_snoc)
  qed
qed

lemma outer_acc:
  "findUnblockedPointsOnLine_outer b c lines acc =
     appendResult (Inr acc) (findUnblockedPointsOnLine_outer b c lines [])"
proof (induction lines arbitrary: acc)
  case Nil
  show ?case by simp
next
  case (Cons l rest)
  show ?case
  proof (cases "findUnblockedPointsOnLine_inner b c l []")
    case (Inl e)
    then show ?thesis using inner_acc[of b c l acc] by simp
  next
    case (Inr v)
    then have "findUnblockedPointsOnLine_inner b c l acc = Inr (acc @ v)"
      using inner_acc[of b c l acc] by simp
    with Inr Cons.IH[of "acc @ v"] Cons.IH[of v] show ?thesis
      by (cases "findUnblockedPointsOnLine_outer b c rest []") simp_all
  qed
qed

lemma findUnblockedPointsOnLine_Cons:
  "findUnblockedPointsOnLine b (line # lines) c =
     appendResult (findUnblockedPointsOnLine b [line] c) (findUnblockedPointsOnLine b lines c)"
proof (cases "findUnblockedPointsOnLine_inner b c line []")
  case (Inl e)
  then show ?thesis by (simp add: findUnblockedPointsOnLine_def)
next
  case (Inr v)
  with outer_acc[of b c lines v] show ?thesis by (simp add: findUnblockedPointsOnLine_def)
qed

text \<open>
  C2. \<^verbatim>\<open>findUnblockedPointsOnLine\<close> walks each line from its first point. When the
  squares of \<open>pre\<close> are empty: a line of empty squares is yielded whole; a piece of the
  moving color after \<open>pre\<close> ends the line with its square left out; a piece of the other
  color that is not a king ends the line with its square as the last one yielded.
  Several lines are walked one after the other and their results appended. With a rook
  placed on d4 and a pawn of its color placed on d6, the line towards d8 yields d5 only.
  Here and below a square stands for the point that \<^verbatim>\<open>algebraicToPoint\<close> gives it, which
  is the point that \<^verbatim>\<open>addPiece\<close> gives the piece placed on it.
\<close>

theorem findUnblockedPointsOnLine_ray_rules:
  assumes "\<forall>q \<in> set pre. getPieceAtSquare b (toAlgebraic q) = Inr Null"
  shows "findUnblockedPointsOnLine b [pre] c = Inr pre
       \<and> (\<forall>p pc post. getPieceAtSquare b (toAlgebraic p) = Inr (Occ pc) \<and> color pc = c \<longrightarrow>
            findUnblockedPointsOnLine b [pre @ p # post] c = Inr pre)
       \<and> (\<forall>p pc post. getPieceAtSquare b (toAlgebraic p) = Inr (Occ pc) \<and> color pc \<noteq> c
              \<and> type pc \<noteq> King \<longrightarrow>
            findUnblockedPointsOnLine b [pre @ p # post] c = Inr (pre @ [p]))
       \<and> (\<forall>line lines. findUnblockedPointsOnLine b (line # lines) c =
            appendResult (findUnblockedPointsOnLine b [line] c) (findUnblockedPointsOnLine b lines c))"
proof (intro conjI allI impI)
  show "findUnblockedPointsOnLine b [pre] c = Inr pre"
    using inner_empty_prefix[OF assms, of c "[]" "[]"] by (simp add: findUnblockedPointsOnLine_def)
next
  fix p pc post
  assume "getPieceAtSquare b (toAlgebraic p) = Inr (Occ pc) \<and> color pc = c"
  then show "findUnblockedPointsOnLine b [pre @ p # post] c = Inr pre"
    using inner_empty_prefix[OF assms, of c "p # post" "[]"]
    by (simp add: findUnblockedPointsOnLine_def)
next
  fix p pc post
  assume "getPieceAtSquare b (toAlgebraic p) = Inr (Occ pc) \<and> color pc \<noteq> c \<and> type pc \<noteq> King"
  then show "findUnblockedPointsOnLine b [pre @ p # post] c = Inr (pre @ [p])"
    using inner_empty_prefix[OF assms, of c "p # post" "[]"]
    by (simp add: findUnblockedPointsOnLine_def)
next
  fix line lines
  show "findUnblockedPointsOnLine b (line # lines) c =
     appendResult (findUnblockedPointsOnLine b [line] c) (findUnblockedPointsOnLine b lines c)"
    by (rule findUnblockedPointsOnLine_Cons)
qed

theorem findUnblockedPointsOnLine_ray_rules_witness:
  "addPiece newBoard Rook White (Str ''d4'') = Inr rookD4
   \<and> addPiece rookD4 Pawn White (Str ''d6'') = Inr rookD4_pawnD6
   \<and> getLine (point whiteRook) 0 (- 1) =
        Inr [\<lparr>file = 3, rank = 3\<rparr>, \<lparr>file = 3, rank = 2\<rparr>, \<lparr>file = 3, rank = 1\<rparr>, \<lparr>file = 3, rank = 0\<rparr>]
   \<and> findUnblockedPointsOnLine rookD4_pawnD6
        [[\<lparr>file = 3, rank = 3\<rparr>, \<lparr>file = 3, rank = 2\<rparr>, \<lparr>file = 3, rank = 1\<rparr>, \<lparr>file = 3, rank = 0\<rparr>]] White
      = Inr [\<lparr>file = 3, rank = 3\<rparr>]
   \<and> map (\<lambda>s. algebraicToPoint (Str s)) [''d5'', ''d6'', ''d7'', ''d8''] =
       [Some \<lparr>file = 3, rank = 3\<rparr>, Some \<lparr>file = 3, rank = 2\<rparr>,
        Some \<lparr>file = 3, rank = 1\<rparr>, Some \<lparr>file = 3, rank = 0\<rparr>]
   \<and> pseudoMoves rookD4_pawnD6 whiteRook =
       Inr [\<lparr>file = 2, rank = 4\<rparr>, \<lparr>file = 1, rank = 4\<rparr>, \<lparr>file = 0, rank = 4\<rparr>,
            \<lparr>file = 4, rank = 4\<rparr>, \<lparr>file = 5, rank = 4\<rparr>, \<lparr>file = 6, rank = 4\<rparr>, \<lparr>file = 7, rank = 4\<rparr>,
            \<lparr>file = 3, rank = 3\<rparr>,
            \<lparr>file = 3, rank = 5\<rparr>, \<lparr>file = 3, rank = 6\<rparr>, \<lparr>file = 3, rank = 7\<rparr>]"
proof -
  have e: "\<forall>q \<in> set [\<lparr>file = 3, rank = 3\<rparr>]. getPieceAtSquare rookD4_pawnD6 (toAlgebraic q) = Inr Null"
    by (simp add: eval_defs)
  have o: "getPieceAtSquare rookD4_pawnD6 (toAlgebraic \<lparr>file = 3, rank = 2\<rparr>) =
      Inr (Occ \<lparr>type = Pawn, color = White, point = \<lparr>file = 3, rank = 2\<rparr>\<rparr>)"
    by (simp add: eval_defs)
  have c: "color \<lparr>type = Pawn, color = White, point = \<lparr>file = 3, rank = 2\<rparr>\<rparr> = White"
    by simp
  have "findUnblockedPointsOnLine rookD4_pawnD6
        [[\<lparr>file = 3, rank = 3\<rparr>] @ \<lparr>file = 3, rank = 2\<rparr> # [\<lparr>file = 3, rank = 1\<rparr>, \<lparr>file = 3, rank = 0\<rparr>]] White
      = Inr [\<lparr>file = 3, rank = 3\<rparr>]"
    using findUnblockedPointsOnLine_ray_rules[OF e, of White] o c by blast
  then have "findUnblockedPointsOnLine rookD4_pawnD6
        [[\<lparr>file = 3, rank = 3\<rparr>, \<lparr>file = 3, rank = 2\<rparr>, \<lparr>file = 3, rank = 1\<rparr>, \<lparr>file = 3, rank = 0\<rparr>]] White
      = Inr [\<lparr>file = 3, rank = 3\<rparr>]"
    by simp
  moreover have "map (\<lambda>s. algebraicToPoint (Str s)) [''d5'', ''d6'', ''d7'', ''d8''] =
       [Some \<lparr>file = 3, rank = 3\<rparr>, Some \<lparr>file = 3, rank = 2\<rparr>,
        Some \<lparr>file = 3, rank = 1\<rparr>, Some \<lparr>file = 3, rank = 0\<rparr>]"
    by (simp add: eval_defs)
  ultimately show ?thesis
    using rookD4_placed rookD4_pawnD6_placed north_ray pseudoMoves_rookD4_pawnD6 by blast
qed

text \<open>
  C3. The claim: a line that reaches the king of the other color ends there, the king's
  square is not yielded and neither is any square beyond it. The code leaves the king's
  square out but has no branch that sets \<^verbatim>\<open>blockedLine\<close> for it, so the walk goes on
  behind the king as if its square were not on the line; when the squares behind it are
  empty, all of them are yielded. With a white rook on d4 and the black king on d5, the
  line towards d8 yields d6, d7 and d8.
\<close>

theorem findUnblockedPointsOnLine_passes_king:
  assumes "\<forall>q \<in> set pre. getPieceAtSquare b (toAlgebraic q) = Inr Null"
    and "getPieceAtSquare b (toAlgebraic k) = Inr (Occ pc)" and "color pc \<noteq> c" and "type pc = King"
  shows "findUnblockedPointsOnLine b [pre @ k # post] c =
           appendResult (Inr pre) (findUnblockedPointsOnLine b [post] c)
       \<and> ((\<forall>q \<in> set post. getPieceAtSquare b (toAlgebraic q) = Inr Null) \<longrightarrow>
            findUnblockedPointsOnLine b [pre @ k # post] c = Inr (pre @ post))"
proof (intro conjI impI)
  have "findUnblockedPointsOnLine_inner b c (pre @ k # post) [] =
      findUnblockedPointsOnLine_inner b c post pre"
    using inner_empty_prefix[OF assms(1), of c "k # post" "[]"] assms(2,3,4) by simp
  then show 1: "findUnblockedPointsOnLine b [pre @ k # post] c =
      appendResult (Inr pre) (findUnblockedPointsOnLine b [post] c)"
    using inner_acc[of b c post pre]
    by (cases "findUnblockedPointsOnLine_inner b c post []")
       (simp_all add: findUnblockedPointsOnLine_def)
  assume "\<forall>q \<in> set post. getPieceAtSquare b (toAlgebraic q) = Inr Null"
  from inner_empty_prefix[OF this, of c "[]" "[]"]
  have "findUnblockedPointsOnLine b [post] c = Inr post"
    by (simp add: findUnblockedPointsOnLine_def)
  with 1 show "findUnblockedPointsOnLine b [pre @ k # post] c = Inr (pre @ post)" by simp
qed

theorem findUnblockedPointsOnLine_passes_king_witness:
  "addPiece newBoard Rook White (Str ''d4'') = Inr rookD4
   \<and> addPiece rookD4 King Black (Str ''d5'') = Inr rookD4_kingD5
   \<and> getLine (point whiteRook) 0 (- 1) =
        Inr [\<lparr>file = 3, rank = 3\<rparr>, \<lparr>file = 3, rank = 2\<rparr>, \<lparr>file = 3, rank = 1\<rparr>, \<lparr>file = 3, rank = 0\<rparr>]
   \<and> findUnblockedPointsOnLine rookD4_kingD5
        [[\<lparr>file = 3, rank = 3\<rparr>, \<lparr>file = 3, rank = 2\<rparr>, \<lparr>file = 3, rank = 1\<rparr>, \<lparr>file = 3, rank = 0\<rparr>]] White
      = Inr [\<lparr>file = 3, rank = 2\<rparr>, \<lparr>file = 3, rank = 1\<rparr>, \<lparr>file = 3, rank = 0\<rparr>]
   \<and> map (\<lambda>s. algebraicToPoint (Str s)) [''d5'', ''d6'', ''d7'', ''d8''] =
       [Some \<lparr>file = 3, rank = 3\<rparr>, Some \<lparr>file = 3, rank = 2\<rparr>,
        Some \<lparr>file = 3, rank = 1\<rparr>, Some \<lparr>file = 3, rank = 0\<rparr>]
   \<and> pseudoMoves rookD4_kingD5 whiteRook =
       Inr [\<lparr>file = 2, rank = 4\<rparr>, \<lparr>file = 1, rank = 4\<rparr>, \<lparr>file = 0, rank = 4\<rparr>,
            \<lparr>file = 4, rank = 4\<rparr>, \<lparr>file = 5, rank = 4\<rparr>, \<lparr>file = 6, rank = 4\<rparr>, \<lparr>file = 7, rank = 4\<rparr>,
            \<lparr>file = 3, rank = 2\<rparr>, \<lparr>file = 3, rank = 1\<rparr>, \<lparr>file = 3, rank = 0\<rparr>,
            \<lparr>file = 3, rank = 5\<rparr>, \<lparr>file = 3, rank = 6\<rparr>, \<lparr>file = 3, rank = 7\<rparr>]"
proof -
  have k: "getPieceAtSquare rookD4_kingD5 (toAlgebraic \<lparr>file = 3, rank = 3\<rparr>) =
      Inr (Occ \<lparr>type = King, color = Black, point = \<lparr>file = 3, rank = 3\<rparr>\<rparr>)"
    by (simp add: eval_defs)
  have e: "\<forall>q \<in> set [\<lparr>file = 3, rank = 2\<rparr>, \<lparr>file = 3, rank = 1\<rparr>, \<lparr>file = 3, rank = 0\<rparr>].
      getPieceAtSquare rookD4_kingD5 (toAlgebraic q) = Inr Null"
    by (simp add: eval_defs)
  have n: "\<forall>q \<in> set []. getPieceAtSquare rookD4_kingD5 (toAlgebraic q) = Inr Null"
    by simp
  have c: "color \<lparr>type = King, color = Black, point = \<lparr>file = 3, rank = 3\<rparr>\<rparr> \<noteq> White"
    and t: "type \<lparr>type = King, color = Black, point = \<lparr>file = 3, rank = 3\<rparr>\<rparr> = King"
    by simp_all
  have "findUnblockedPointsOnLine rookD4_kingD5
        [[] @ \<lparr>file = 3, rank = 3\<rparr> # [\<lparr>file = 3, rank = 2\<rparr>, \<lparr>file = 3, rank = 1\<rparr>, \<lparr>file = 3, rank = 0\<rparr>]] White
      = Inr ([] @ [\<lparr>file = 3, rank = 2\<rparr>, \<lparr>file = 3, rank = 1\<rparr>, \<lparr>file = 3, rank = 0\<rparr>])"
    using findUnblockedPointsOnLine_passes_king[OF n k c t] e by blast
  then have "findUnblockedPointsOnLine rookD4_kingD5
        [[\<lparr>file = 3, rank = 3\<rparr>, \<lparr>file = 3, rank = 2\<rparr>, \<lparr>file = 3, rank = 1\<rparr>, \<lparr>file = 3, rank = 0\<rparr>]] White
      = Inr [\<lparr>file = 3, rank = 2\<rparr>, \<lparr>file = 3, rank = 1\<rparr>, \<lparr>file = 3, rank = 0\<rparr>]"
    by simp
  moreover have "map (\<lambda>s. algebraicToPoint (Str s)) [''d5'', ''d6'', ''d7'', ''d8''] =
       [Some \<lparr>file = 3, rank = 3\<rparr>, Some \<lparr>file = 3, rank = 2\<rparr>,
        Some \<lparr>file = 3, rank = 1\<rparr>, Some \<lparr>file = 3, rank = 0\<rparr>]"
    by (simp add: eval_defs)
  ultimately show ?thesis
    using rookD4_placed rookD4_kingD5_placed north_ray pseudoMoves_rookD4_kingD5 by blast
qed

section \<open>Pseudo-legal moves\<close>

lemma inner_total:
  "\<forall>q \<in> set line. isValid q \<Longrightarrow> \<exists>v. findUnblockedPointsOnLine_inner b c line acc = Inr v"
proof (induction line arbitrary: acc)
  case Nil
  show ?case by simp
next
  case (Cons p rest)
  then have "isValid p" by simp
  from Cons have ih: "\<And>acc. \<exists>v. findUnblockedPointsOnLine_inner b c rest acc = Inr v" by simp
  show ?case
    using ih[of acc] ih[of "acc @ [p]"]
    by (auto simp: getPieceAtSquare_toAlgebraic[OF \<open>isValid p\<close>] split: option.splits)
qed

lemma outer_total:
  "\<forall>l \<in> set lines. \<forall>q \<in> set l. isValid q \<Longrightarrow>
   \<exists>v. findUnblockedPointsOnLine_outer b c lines acc = Inr v"
proof (induction lines arbitrary: acc)
  case Nil
  show ?case by simp
next
  case (Cons l rest)
  then have "\<forall>q \<in> set l. isValid q" by simp
  from inner_total[OF this] obtain v where "findUnblockedPointsOnLine_inner b c l acc = Inr v"
    by blast
  with Cons show ?case by simp
qed

lemma loop_total:
  "\<forall>q \<in> set ps. isValid q \<Longrightarrow> \<exists>v. findUnblockedPoints_loop b ps c inc acc = Inr v"
proof (induction ps arbitrary: acc)
  case Nil
  show ?case by simp
next
  case (Cons p rest)
  then have "isValid p" by simp
  from Cons have ih: "\<And>acc. \<exists>v. findUnblockedPoints_loop b rest c inc acc = Inr v" by simp
  show ?case
    using ih[of acc] ih[of "acc @ [p]"]
    by (auto simp: getPieceAtSquare_toAlgebraic[OF \<open>isValid p\<close>] split: option.splits)
qed

lemma getLine_total:
  "dx \<noteq> 0 \<or> dy \<noteq> 0 \<Longrightarrow> \<exists>l. getLine p dx dy = Inr l \<and> (\<forall>q \<in> set l. isValid q)"
  using getLine_ray[of dx dy p] getLine_valid[of p dx dy] by blast

lemma getStraightLines_total:
  "\<exists>ls. getStraightLines p = Inr ls \<and> (\<forall>l \<in> set ls. \<forall>q \<in> set l. isValid q)"
proof -
  obtain l1 where l1: "getLine p (- 1) 0 = Inr l1" "\<forall>q \<in> set l1. isValid q"
    using getLine_total[of "- 1" 0 p] by auto
  obtain l2 where l2: "getLine p 1 0 = Inr l2" "\<forall>q \<in> set l2. isValid q"
    using getLine_total[of 1 0 p] by auto
  obtain l3 where l3: "getLine p 0 (- 1) = Inr l3" "\<forall>q \<in> set l3. isValid q"
    using getLine_total[of 0 "- 1" p] by auto
  obtain l4 where l4: "getLine p 0 1 = Inr l4" "\<forall>q \<in> set l4. isValid q"
    using getLine_total[of 0 1 p] by auto
  show ?thesis by (simp add: getStraightLines_def l1 l2 l3 l4)
qed

lemma getDiagonals_total:
  "\<exists>ls. getDiagonals p = Inr ls \<and> (\<forall>l \<in> set ls. \<forall>q \<in> set l. isValid q)"
proof -
  obtain l1 where l1: "getLine p 1 (- 1) = Inr l1" "\<forall>q \<in> set l1. isValid q"
    using getLine_total[of 1 "- 1" p] by auto
  obtain l2 where l2: "getLine p 1 1 = Inr l2" "\<forall>q \<in> set l2. isValid q"
    using getLine_total[of 1 1 p] by auto
  obtain l3 where l3: "getLine p (- 1) (- 1) = Inr l3" "\<forall>q \<in> set l3. isValid q"
    using getLine_total[of "- 1" "- 1" p] by auto
  obtain l4 where l4: "getLine p (- 1) 1 = Inr l4" "\<forall>q \<in> set l4. isValid q"
    using getLine_total[of "- 1" 1 p] by auto
  show ?thesis by (simp add: getDiagonals_def l1 l2 l3 l4)
qed

lemma getAllLines_total:
  "\<exists>ls. getAllLines p = Inr ls \<and> (\<forall>l \<in> set ls. \<forall>q \<in> set l. isValid q)"
  using getStraightLines_total[of p] getDiagonals_total[of p]
  by (auto simp: getAllLines_def)

lemma getSurroundingPoints_valid: "\<forall>q \<in> set (getSurroundingPoints p). isValid q"
  by (auto simp: getSurroundingPoints_def isValid_def mkPoint_def split: if_splits)

lemma getKnightPoints_valid: "\<forall>q \<in> set (getKnightPoints p). isValid q"
  by (auto simp: getKnightPoints_def isValid_def mkPoint_def split: if_splits)

lemma pseudoMoves_total: "\<exists>pm. pseudoMoves b pc = Inr pm"
proof (cases "type pc")
  case Bishop
  from getDiagonals_total[of "point pc"] obtain ls where
    "getDiagonals (point pc) = Inr ls" "\<forall>l \<in> set ls. \<forall>q \<in> set l. isValid q" by blast
  with Bishop outer_total[of ls b "color pc" "[]"] show ?thesis
    by (simp add: pseudoMoves_def findUnblockedPointsOnLine_def)
next
  case Rook
  from getStraightLines_total[of "point pc"] obtain ls where
    "getStraightLines (point pc) = Inr ls" "\<forall>l \<in> set ls. \<forall>q \<in> set l. isValid q" by blast
  with Rook outer_total[of ls b "color pc" "[]"] show ?thesis
    by (simp add: pseudoMoves_def findUnblockedPointsOnLine_def)
next
  case Queen
  from getAllLines_total[of "point pc"] obtain ls where
    "getAllLines (point pc) = Inr ls" "\<forall>l \<in> set ls. \<forall>q \<in> set l. isValid q" by blast
  with Queen outer_total[of ls b "color pc" "[]"] show ?thesis
    by (simp add: pseudoMoves_def findUnblockedPointsOnLine_def)
next
  case King
  with loop_total[OF getSurroundingPoints_valid, of b "point pc" "color pc" True "[]"] show ?thesis
    by (simp add: pseudoMoves_def findUnblockedPoints_def)
next
  case Knight
  with loop_total[OF getKnightPoints_valid, of b "point pc" "color pc" True "[]"] show ?thesis
    by (simp add: pseudoMoves_def findUnblockedPoints_def)
next
  case Pawn
  then show ?thesis by (simp add: pseudoMoves_def)
qed

lemma getpseudoLegalMovesForPiece_undef:
  "\<exists>out. getpseudoLegalMovesForPiece b pc = Inr (out, None)"
  using pseudoMoves_total[of b pc] by (auto simp: getpseudoLegalMovesForPiece_def)

lemma getpseudoLegalMoves_loop_moves:
  "\<exists>out'. getpseudoLegalMoves_loop b ps out moves = Inr (out', moves)"
proof (induction ps arbitrary: out)
  case Nil
  show ?case by simp
next
  case (Cons p rest)
  from getpseudoLegalMovesForPiece_undef[of b p] obtain printed where
    "getpseudoLegalMovesForPiece b p = Inr (printed, None)" by blast
  with Cons[of "out @ printed"] show ?case by simp
qed

lemma chessFinder_pseudoMoves_total: "\<exists>pm. chessFinder_pseudoMoves b pc = Inr pm"
proof (cases "type pc = Bishop \<or> type pc = Rook \<or> type pc = Queen")
  case True
  with pseudoMoves_total[of b pc] show ?thesis
    by (auto simp: chessFinder_pseudoMoves_def pseudoMoves_def)
next
  case False
  then show ?thesis
    by (cases "type pc") (simp_all add: chessFinder_pseudoMoves_def)
qed

lemma chessFinder_getpseudoLegalMovesForPiece_undef:
  "\<exists>out. chessFinder_getpseudoLegalMovesForPiece b pc = Inr (out, None)"
  using chessFinder_pseudoMoves_total[of b pc]
  by (auto simp: chessFinder_getpseudoLegalMovesForPiece_def)

lemma chessFinder_getpseudoLegalMoves_loop_moves:
  "\<exists>out'. chessFinder_getpseudoLegalMoves_loop b ps out moves = Inr (out', moves)"
proof (induction ps arbitrary: out)
  case Nil
  show ?case by simp
next
  case (Cons p rest)
  from chessFinder_getpseudoLegalMovesForPiece_undef[of b p] obtain printed where
    "chessFinder_getpseudoLegalMovesForPiece b p = Inr (printed, None)" by blast
  with Cons[of "out @ printed"] show ?case by simp
qed

text \<open>
  C1. The claim: \<^verbatim>\<open>getpseudoLegalMovesForPiece\<close> returns the destinations of a piece, for
  a rook on d4 of an otherwise empty board the 14 squares of its file and rank. The
  code computes them in its local variable, prints them and ends without a
  \<^verbatim>\<open>return\<close>: for every board and piece it returns \<^verbatim>\<open>undefined\<close>.
\<close>

theorem getpseudoLegalMovesForPiece_returns_undefined:
  "\<exists>out. getpseudoLegalMovesForPiece b pc = Inr (out, None)"
  by (rule getpseudoLegalMovesForPiece_undef)

theorem getpseudoLegalMovesForPiece_returns_undefined_witness:
  "addPiece newBoard Rook White (Str ''d4'') = Inr rookD4
   \<and> pieces rookD4 = [whiteRook]
   \<and> pseudoMoves rookD4 whiteRook =
       Inr [\<lparr>file = 2, rank = 4\<rparr>, \<lparr>file = 1, rank = 4\<rparr>, \<lparr>file = 0, rank = 4\<rparr>,
            \<lparr>file = 4, rank = 4\<rparr>, \<lparr>file = 5, rank = 4\<rparr>, \<lparr>file = 6, rank = 4\<rparr>, \<lparr>file = 7, rank = 4\<rparr>,
            \<lparr>file = 3, rank = 3\<rparr>, \<lparr>file = 3, rank = 2\<rparr>, \<lparr>file = 3, rank = 1\<rparr>, \<lparr>file = 3, rank = 0\<rparr>,
            \<lparr>file = 3, rank = 5\<rparr>, \<lparr>file = 3, rank = 6\<rparr>, \<lparr>file = 3, rank = 7\<rparr>]
   \<and> map (\<lambda>s. algebraicToPoint (Str s))
         [''c4'', ''b4'', ''a4'', ''e4'', ''f4'', ''g4'', ''h4'',
          ''d5'', ''d6'', ''d7'', ''d8'', ''d3'', ''d2'', ''d1''] =
       map Some
           [\<lparr>file = 2, rank = 4\<rparr>, \<lparr>file = 1, rank = 4\<rparr>, \<lparr>file = 0, rank = 4\<rparr>,
            \<lparr>file = 4, rank = 4\<rparr>, \<lparr>file = 5, rank = 4\<rparr>, \<lparr>file = 6, rank = 4\<rparr>, \<lparr>file = 7, rank = 4\<rparr>,
            \<lparr>file = 3, rank = 3\<rparr>, \<lparr>file = 3, rank = 2\<rparr>, \<lparr>file = 3, rank = 1\<rparr>, \<lparr>file = 3, rank = 0\<rparr>,
            \<lparr>file = 3, rank = 5\<rparr>, \<lparr>file = 3, rank = 6\<rparr>, \<lparr>file = 3, rank = 7\<rparr>]
   \<and> getpseudoLegalMovesForPiece rookD4 whiteRook =
       Inr ([''The pseudomoves for the white Rook on d5 are:'', ''c5'', ''b5'', ''a5'', ''e5'', ''f5'',
             ''g5'', ''h5'', ''d4'', ''d3'', ''d2'', ''d1'', ''d6'', ''d7'', ''d8''], None)"
  using getpseudoLegalMovesForPiece_returns_undefined[of rookD4 whiteRook]
        rookD4_placed pieces_rookD4 pseudoMoves_rookD4 squares_rookD4 printed_rookD4
  by blast

text \<open>
  C4. For every board, \<^verbatim>\<open>getpseudoLegalMoves()\<close> returns normally and its result is the
  empty list: each call of \<^verbatim>\<open>getpseudoLegalMovesForPiece\<close> returns \<^verbatim>\<open>undefined\<close>, which
  \<^verbatim>\<open>if (newMoves)\<close> skips. This holds for \<^verbatim>\<open>Board.js\<close> and for the copy in
  \<^verbatim>\<open>chess-finder.js\<close>.
\<close>

theorem getpseudoLegalMoves_empty:
  "(\<exists>out. getpseudoLegalMoves b = Inr (out, []))
   \<and> (\<exists>out. chessFinder_getpseudoLegalMoves b = Inr (out, []))"
  by (simp add: getpseudoLegalMoves_def getpseudoLegalMoves_loop_moves
      chessFinder_getpseudoLegalMoves_def chessFinder_getpseudoLegalMoves_loop_moves)

theorem getpseudoLegalMoves_empty_witness:
  "getpseudoLegalMoves rookD4 =
     Inr ([''The pseudomoves for the white Rook on d5 are:'', ''c5'', ''b5'', ''a5'', ''e5'', ''f5'',
           ''g5'', ''h5'', ''d4'', ''d3'', ''d2'', ''d1'', ''d6'', ''d7'', ''d8''], [])
   \<and> (\<exists>out. chessFinder_getpseudoLegalMoves rookD4 = Inr (out, []))"
  using getpseudoLegalMoves_empty[of rookD4] all_rookD4
  by blast

section \<open>Loading a position\<close>

text \<open>
  C7. From the empty board, \<^verbatim>\<open>setPositionFromFEN("8/8/8/8/8/8/8/R7")\<close> returns normally;
  then \<^verbatim>\<open>getPieceAtSquare("a1")\<close> is a white rook and \<^verbatim>\<open>getPieceAtSquare(s)\<close> is null
  for every other valid square \<open>s\<close>.
\<close>

theorem setPositionFromFEN_single_rook:
  "\<exists>b. setPositionFromFEN newBoard ''8/8/8/8/8/8/8/R7'' = Inr b
        \<and> (\<exists>pc. getPieceAtSquare b (Str ''a1'') = Inr (Occ pc) \<and> type pc = Rook \<and> color pc = White)
        \<and> (\<forall>s. validSquare s \<and> s \<noteq> ''a1'' \<longrightarrow> getPieceAtSquare b (Str s) = Inr Null)"
proof -
  let ?rook = "\<lparr>type = Rook, color = White, point = \<lparr>file = 0, rank = 0\<rparr>\<rparr>"
  let ?b = "newBoard(7 := (newBoard 7)(0 := Some ?rook))"
  have 1: "setPositionFromFEN newBoard ''8/8/8/8/8/8/8/R7'' = Inr ?b" by (rule fen_rook_loaded)
  have 2: "getPieceAtSquare ?b (Str ''a1'') = Inr (Occ ?rook)"
    by (simp add: eval_defs)
  have 3: "getPieceAtSquare ?b (Str s) = Inr Null" if "validSquare s" "s \<noteq> ''a1''" for s
  proof -
    from that(1) obtain l d where s: "s = [l, d]" "l \<in> set ''abcdefgh''" "d \<in> set ''12345678''"
      by (rule validSquare_cases)
    from getPieceAtSquare_valid[OF that(1), of ?b] obtain p where
      p: "isValid p" "''abcdefgh'' ! nat (file p) = s ! 0" "rank p = 8 - parseInt (s ! 1)"
         "getPieceAtSquare ?b (Str s) =
            Inr (case ?b (rank p) (file p) of Some pc \<Rightarrow> Occ pc | None \<Rightarrow> Null)"
      by blast
    have "\<not> (rank p = 7 \<and> file p = 0)"
    proof
      assume a: "rank p = 7 \<and> file p = 0"
      with p(3) have "parseInt d = 1" by (simp add: s(1))
      with s(3) have "d = CHR ''1''" by (rule digit_one)
      moreover from a p(2) have "l = CHR ''a''" by (simp add: s(1))
      ultimately show False using that(2) by (simp add: s(1))
    qed
    then show ?thesis unfolding p(4) by (auto simp: newBoard_def)
  qed
  from 1 2 3 show ?thesis by auto
qed

theorem setPositionFromFEN_single_rook_witness:
  "setPositionFromFEN newBoard ''8/8/8/8/8/8/8/R7'' =
     Inr (newBoard(7 := (newBoard 7)(0 := Some \<lparr>type = Rook, color = White, point = \<lparr>file = 0, rank = 0\<rparr>\<rparr>)))
   \<and> getPieceAtSquare (newBoard(7 := (newBoard 7)(0 := Some \<lparr>type = Rook, color = White, point = \<lparr>file = 0, rank = 0\<rparr>\<rparr>)))
       (Str ''a1'') = Inr (Occ \<lparr>type = Rook, color = White, point = \<lparr>file = 0, rank = 0\<rparr>\<rparr>)
   \<and> validSquare ''b2''
   \<and> getPieceAtSquare (newBoard(7 := (newBoard 7)(0 := Some \<lparr>type = Rook, color = White, point = \<lparr>file = 0, rank = 0\<rparr>\<rparr>)))
       (Str ''b2'') = Inr Null
   \<and> validSquare ''a8''
   \<and> getPieceAtSquare (newBoard(7 := (newBoard 7)(0 := Some \<lparr>type = Rook, color = White, point = \<lparr>file = 0, rank = 0\<rparr>\<rparr>)))
       (Str ''a8'') = Inr Null"
  using setPositionFromFEN_single_rook
  by (simp add: eval_defs validSquare_def)

lemma addPiece_error: "addPiece b t c sq = Inl e \<Longrightarrow> e = TypeError"
  by (auto simp: addPiece_def setPieceAtSquare_def Let_def split: option.splits if_splits)

lemma row_error: "setPositionFromFEN_row b r f str = Inl e \<Longrightarrow> e = TypeError"
proof (induction str arbitrary: b f)
  case Nil
  then show ?case by simp
next
  case (Cons ch rest)
  then show ?case
    by (auto simp: Let_def split: if_splits option.splits sum.splits dest: addPiece_error)
qed

lemma ranks_error: "setPositionFromFEN_ranks b rows is = Inl e \<Longrightarrow> e = TypeError"
proof (induction "is" arbitrary: b)
  case Nil
  then show ?case by simp
next
  case (Cons i rest)
  then show ?case
    by (auto split: if_splits sum.splits dest: row_error)
qed

lemma ranks_missing_row:
  "\<exists>i \<in> set is. length rows \<le> i \<Longrightarrow> setPositionFromFEN_ranks b rows is = Inl TypeError"
proof (induction "is" arbitrary: b)
  case Nil
  then show ?case by simp
next
  case (Cons i rest)
  show ?case
  proof (cases "i < length rows")
    case False
    then show ?thesis by simp
  next
    case True
    with Cons.prems have ex: "\<exists>i \<in> set rest. length rows \<le> i" by auto
    show ?thesis
    proof (cases "setPositionFromFEN_row b (int i) 0 (rows ! i)")
      case (Inl e)
      with row_error[OF Inl] True show ?thesis by simp
    next
      case (Inr b')
      with True Cons.IH[OF ex, of b'] show ?thesis by simp
    qed
  qed
qed

lemma ranks_extra_ignored:
  "\<forall>i \<in> set is. i < length rows \<Longrightarrow>
   setPositionFromFEN_ranks b (rows @ extra) is = setPositionFromFEN_ranks b rows is"
  by (induction "is" arbitrary: b) (auto simp: nth_append split: sum.splits)

text \<open>
  C9. The claim: a structurally invalid piece-placement field (wrong number of ranks,
  unrecognized char, rank overflow) makes \<^verbatim>\<open>setPositionFromFEN\<close> fail with a
  MalformedInput error. The code "assumes well-formed FEN" and checks nothing: a field
  of nine ranks, a field with the char x, a field with the digit 9 and a field whose
  first rank has nine squares are all loaded without an exception.
\<close>

theorem setPositionFromFEN_accepts_malformed:
  "setPositionFromFEN newBoard ''8/8/8/8/8/8/8/8/8'' = Inr newBoard
   \<and> setPositionFromFEN newBoard ''x7/8/8/8/8/8/8/8'' = Inr newBoard
   \<and> setPositionFromFEN newBoard ''9/8/8/8/8/8/8/8'' = Inr newBoard
   \<and> setPositionFromFEN newBoard ''R8/8/8/8/8/8/8/8'' =
       Inr (newBoard(0 := (newBoard 0)(0 := Some \<lparr>type = Rook, color = White, point = \<lparr>file = 0, rank = 7\<rparr>\<rparr>)))"
  by (simp add: eval_defs)

text \<open>
  C9, as amended. \<^verbatim>\<open>setPositionFromFEN\<close> validates nothing and never signals
  MalformedInput: the only exception it can raise is the TypeError of JavaScript, which
  a field of fewer than eight ranks always raises; a char that is neither a digit nor a
  piece letter is passed over as one empty square; ranks after the eighth are ignored.
\<close>

theorem setPositionFromFEN_unvalidated:
  "(\<forall>e. setPositionFromFEN b fen = Inl e \<longrightarrow> e = TypeError)
   \<and> (length (splitOn CHR ''/'' (hd (splitOn CHR '' '' fen))) < 8 \<longrightarrow>
        setPositionFromFEN b fen = Inl TypeError)
   \<and> (\<forall>ch r f rest. \<not> isDigit ch \<and> pieceOfLetter (toUpperCase ch) = None \<and> f \<le> 8 \<longrightarrow>
        setPositionFromFEN_row b r f (ch # rest) = setPositionFromFEN_row b r (f + 1) rest)
   \<and> (\<forall>rows extra. 8 \<le> length rows \<longrightarrow>
        setPositionFromFEN_ranks b (rows @ extra) [0 ..< 8] = setPositionFromFEN_ranks b rows [0 ..< 8])"
proof (intro conjI allI impI)
  fix e assume "setPositionFromFEN b fen = Inl e"
  then show "e = TypeError" by (auto simp: setPositionFromFEN_def Let_def dest: ranks_error)
next
  assume "length (splitOn CHR ''/'' (hd (splitOn CHR '' '' fen))) < 8"
  then have "\<exists>i \<in> set [0 ..< 8]. length (splitOn CHR ''/'' (hd (splitOn CHR '' '' fen))) \<le> i"
    by (intro bexI[of _ 7]) simp_all
  from ranks_missing_row[OF this] show "setPositionFromFEN b fen = Inl TypeError"
    by (simp add: setPositionFromFEN_def Let_def)
next
  fix ch :: char and r f :: int and rest :: string
  assume "\<not> isDigit ch \<and> pieceOfLetter (toUpperCase ch) = None \<and> f \<le> 8"
  then show "setPositionFromFEN_row b r f (ch # rest) = setPositionFromFEN_row b r (f + 1) rest"
    by (simp add: Let_def)
next
  fix rows extra :: "string list"
  assume "8 \<le> length rows"
  then have "\<forall>i \<in> set [0 ..< 8]. i < length rows" by auto
  then show "setPositionFromFEN_ranks b (rows @ extra) [0 ..< 8] = setPositionFromFEN_ranks b rows [0 ..< 8]"
    by (rule ranks_extra_ignored)
qed

theorem setPositionFromFEN_unvalidated_witness:
  "setPositionFromFEN newBoard ''8/8/8/8/8/8/8'' = Inl TypeError
   \<and> length (splitOn CHR ''/'' (hd (splitOn CHR '' '' ''8/8/8/8/8/8/8''))) = 7
   \<and> setPositionFromFEN_row newBoard 0 0 ''x7'' = setPositionFromFEN_row newBoard 0 (0 + 1) ''7''
   \<and> setPositionFromFEN_ranks newBoard ([''8'', ''8'', ''8'', ''8'', ''8'', ''8'', ''8'', ''8''] @ [''R7'']) [0 ..< 8]
       = setPositionFromFEN_ranks newBoard [''8'', ''8'', ''8'', ''8'', ''8'', ''8'', ''8'', ''8''] [0 ..< 8]"
proof -
  note t = setPositionFromFEN_unvalidated[of newBoard "''8/8/8/8/8/8/8''"]
  have l: "length (splitOn CHR ''/'' (hd (splitOn CHR '' '' ''8/8/8/8/8/8/8''))) = 7" by simp
  from t l have 1: "setPositionFromFEN newBoard ''8/8/8/8/8/8/8'' = Inl TypeError" by simp
  have x: "\<not> isDigit CHR ''x'' \<and> pieceOfLetter (toUpperCase CHR ''x'') = None \<and> (0::int) \<le> 8"
    by (simp add: isDigit_def pieceOfLetter_def toUpperCase_def indexOf.simps Let_def)
  from t x have 2: "setPositionFromFEN_row newBoard 0 0 ''x7'' = setPositionFromFEN_row newBoard 0 (0 + 1) ''7''"
    by blast
  have "8 \<le> length [''8'', ''8'', ''8'', ''8'', ''8'', ''8'', ''8'', ''8'']" by simp
  with t have 3: "setPositionFromFEN_ranks newBoard ([''8'', ''8'', ''8'', ''8'', ''8'', ''8'', ''8'', ''8''] @ [''R7'']) [0 ..< 8]
       = setPositionFromFEN_ranks newBoard [''8'', ''8'', ''8'', ''8'', ''8'', ''8'', ''8'', ''8''] [0 ..< 8]"
    by blast
  from 1 l 2 3 show ?thesis by blast
qed

end
